theory Spec2Isabelle
  imports Main
begin

section \<open>Values, errors and the sink\<close>

text \<open>
  The program is the Go package \<open>json\<close> (file \<open>json.go\<close>): two streaming writers,
  \<open>Builder\<close> for JSON objects and \<open>ListBuilder\<close> for JSON lists, which share an
  \<open>io.Writer\<close> and an encoder.

  A Go value of type \<open>interface{}\<close> is a \<open>val\<close>: the dynamic types that the
  program and its tests pass around. \<open>VChan\<close> stands for a value that
  \<open>encoding/json\<close> cannot marshal (a channel).
\<close>

datatype val = VString string | VInt int | VBool bool | VChan

text \<open>
  A Go \<open>error\<close>. \<open>errorString m\<close> is \<open>errors.New(m)\<close> (also what a sink or
  the marshaller may return); \<open>ArgNotString i v\<close> is the
  \<open>fmt.Errorf("Arg %d was not a string %s: %s", i, reflect.TypeOf(v), v)\<close> of
  \<open>Builder.AddAll\<close>. A nil error is \<open>None\<close>.
\<close>

datatype error = errorString string | ArgNotString nat val

text \<open>
  \<open>json.Marshal\<close> belongs to the standard library, not to this package: every
  operation that encodes takes it as the parameter \<open>M\<close>, which returns the bytes or
  an error.
\<close>

type_synonym marshal = "val \<Rightarrow> error + string"

type_synonym addr = nat

datatype writerState = startState | openedState | closedState

text \<open>
  The structs \<open>Builder\<close> and \<open>ListBuilder\<close> have the same five fields. The fields
  \<open>w\<close> and \<open>e\<close> are the same in every writer of one tree (a child copies its
  parent's, and \<open>e\<close> is \<open>basicEncoder{w}\<close>), so the model keeps the one sink in
  the \<open>world\<close> and stores the fields that differ. \<open>subB\<close> is the interface value
  \<open>builderCommon\<close>: nil or a pointer to a writer of either kind.
\<close>

record writer =
  state :: writerState
  subB :: "addr option"
  Err :: "error option"

text \<open>
  The sink is any \<open>io.Writer\<close>. What it has accepted so far is \<open>out\<close>; \<open>plan\<close>
  scripts the outcome of the coming calls of \<open>Write\<close>, one entry per call:
  \<open>Accept\<close> takes all bytes, \<open>Reject n e\<close> takes the first \<open>n\<close> bytes and
  returns the error \<open>e\<close>. When the plan is used up every call is accepted.

  Writers are reached through pointers and a parent reads its child's fields long after
  it created it, so they live in a \<open>heap\<close>; \<open>nxt\<close> is the next free address.

  \<open>wlog\<close> is a ghost field, not in the source: it records every call of
  \<open>b.w.Write(x)\<close> made by the method \<open>write\<close>, with its receiver \<open>b\<close>.
\<close>

datatype outcome = Accept | Reject nat error

record world =
  out :: string
  plan :: "outcome list"
  heap :: "addr \<Rightarrow> writer"
  nxt :: addr
  wlog :: "(addr \<times> string) list"

definition Write :: "string \<Rightarrow> world \<Rightarrow> error option \<times> world" where
  "Write x \<sigma> =
     (case plan \<sigma> of
        [] \<Rightarrow> (None, \<sigma>\<lparr>out := out \<sigma> @ x\<rparr>)
      | Accept # p \<Rightarrow> (None, \<sigma>\<lparr>out := out \<sigma> @ x, plan := p\<rparr>)
      | Reject n e # p \<Rightarrow> (Some e, \<sigma>\<lparr>out := out \<sigma> @ take n x, plan := p\<rparr>))"

definition set_Err :: "addr \<Rightarrow> error option \<Rightarrow> world \<Rightarrow> world" where
  "set_Err b e \<sigma> = \<sigma>\<lparr>heap := (heap \<sigma>)(b := (heap \<sigma> b)\<lparr>Err := e\<rparr>)\<rparr>"

definition set_state :: "addr \<Rightarrow> writerState \<Rightarrow> world \<Rightarrow> world" where
  "set_state b s \<sigma> = \<sigma>\<lparr>heap := (heap \<sigma>)(b := (heap \<sigma> b)\<lparr>state := s\<rparr>)\<rparr>"

definition set_subB :: "addr \<Rightarrow> addr option \<Rightarrow> world \<Rightarrow> world" where
  "set_subB b s \<sigma> = \<sigma>\<lparr>heap := (heap \<sigma>)(b := (heap \<sigma> b)\<lparr>subB := s\<rparr>)\<rparr>"

text \<open>\<open>&Builder{0, b.w, b.e, nil, nil}\<close> and \<open>&ListBuilder{0, b.w, b.e, nil, nil}\<close>.\<close>

definition alloc :: "world \<Rightarrow> addr \<times> world" where
  "alloc \<sigma> =
     (nxt \<sigma>,
      \<sigma>\<lparr>heap := (heap \<sigma>)(nxt \<sigma> := \<lparr>state = startState, subB = None, Err = None\<rparr>),
        nxt := Suc (nxt \<sigma>)\<rparr>)"

section \<open>The encoder\<close>

text \<open>
  \<open>basicEncoder.encode\<close>: when \<open>json.Marshal\<close> fails the method returns nil and
  writes nothing; otherwise it returns what the sink's \<open>Write\<close> returns.
\<close>

definition encode :: "marshal \<Rightarrow> val \<Rightarrow> world \<Rightarrow> error option \<times> world" where
  "encode M arg \<sigma> =
     (case M arg of
        Inl err \<Rightarrow> (None, \<sigma>)
      | Inr bytes \<Rightarrow> Write bytes \<sigma>)"

section \<open>Code shared by both writers\<close>

text \<open>
  \<open>Builder.write\<close> and \<open>ListBuilder.write\<close> are the same code, and so are the two
  \<open>checkSub\<close>, \<open>closed\<close> and \<open>err\<close>.
\<close>

definition "write" :: "string \<Rightarrow> addr \<Rightarrow> world \<Rightarrow> world" where
  "write x b \<sigma> =
     (if Err (heap \<sigma> b) = None then
        (let (e, \<sigma>') = Write x \<sigma>
         in set_Err b e (\<sigma>'\<lparr>wlog := wlog \<sigma>' @ [(b, x)]\<rparr>))
      else \<sigma>)"

definition closed :: "addr \<Rightarrow> world \<Rightarrow> bool" where
  "closed b \<sigma> = (state (heap \<sigma> b) = closedState)"

definition err :: "addr \<Rightarrow> world \<Rightarrow> error option" where
  "err b \<sigma> = Err (heap \<sigma> b)"

definition checkSub :: "addr \<Rightarrow> world \<Rightarrow> error option \<times> world" where
  "checkSub b \<sigma> =
     (let \<sigma>' =
        (if Err (heap \<sigma> b) = None then
           (case subB (heap \<sigma> b) of
              None \<Rightarrow> \<sigma>
            | Some s \<Rightarrow>
                set_subB b None
                  (case err s \<sigma> of
                     Some e \<Rightarrow> set_Err b (Some e) \<sigma>
                   | None \<Rightarrow>
                       if \<not> closed s \<sigma>
                       then set_Err b (Some (errorString ''A sub-Builder was not closed'')) \<sigma>
                       else \<sigma>))
         else \<sigma>)
      in (Err (heap \<sigma>' b), \<sigma>'))"

section \<open>Builder\<close>

definition Builder_init :: "addr \<Rightarrow> world \<Rightarrow> world" where
  "Builder_init b \<sigma> =
     write ''{'' b
       (if state (heap \<sigma> b) \<noteq> startState
        then set_Err b (Some (errorString ''Builder init'd after being mutated'')) \<sigma>
        else \<sigma>)"

definition NewBuilder :: "world \<Rightarrow> addr \<times> world" where
  "NewBuilder \<sigma> = (let (b, \<sigma>1) = alloc \<sigma> in (b, Builder_init b \<sigma>1))"

definition Builder_preadd :: "marshal \<Rightarrow> string \<Rightarrow> addr \<Rightarrow> world \<Rightarrow> error option \<times> world" where
  "Builder_preadd M key b \<sigma> =
     (let \<sigma>1 = (if state (heap \<sigma> b) = closedState
                then set_Err b (Some (errorString ''Builder mutated after Close()'')) \<sigma>
                else \<sigma>);
          (e, \<sigma>2) = checkSub b \<sigma>1
      in if e \<noteq> None then (e, \<sigma>2)
         else
           (let \<sigma>3 = (if state (heap \<sigma>2 b) = startState
                      then set_state b openedState \<sigma>2
                      else write '','' b \<sigma>2);
                (ek, \<sigma>4) = encode M (VString key) \<sigma>3;
                \<sigma>5 = write '':'' b (set_Err b ek \<sigma>4)
            in (Err (heap \<sigma>5 b), \<sigma>5)))"

definition Builder_Add :: "marshal \<Rightarrow> string \<Rightarrow> val \<Rightarrow> addr \<Rightarrow> world \<Rightarrow> world" where
  "Builder_Add M key v b \<sigma> =
     (let (e, \<sigma>1) = Builder_preadd M key b \<sigma>
      in if e \<noteq> None then \<sigma>1
         else (let (ev, \<sigma>2) = encode M v \<sigma>1 in set_Err b ev \<sigma>2))"

text \<open>
  The loop of \<open>Builder.AddAll\<close>, \<open>for i := 0; i < len(args) && b.Err == nil; i += 2\<close>,
  on the arguments from index \<open>i\<close> on. It runs only when \<open>len(args)\<close> is even, so
  a key always has its value; the last equation is the end of the arguments.
\<close>

fun Builder_AddAll_loop :: "marshal \<Rightarrow> nat \<Rightarrow> val list \<Rightarrow> addr \<Rightarrow> world \<Rightarrow> world" where
  "Builder_AddAll_loop M i (k # v # rest) b \<sigma> =
     (if Err (heap \<sigma> b) = None then
        (case k of
           VString key \<Rightarrow> Builder_AddAll_loop M (i + 2) rest b (Builder_Add M key v b \<sigma>)
         | _ \<Rightarrow> set_Err b (Some (ArgNotString i k)) \<sigma>)
      else \<sigma>)"
| "Builder_AddAll_loop M i rest b \<sigma> = \<sigma>"

definition Builder_AddAll :: "marshal \<Rightarrow> val list \<Rightarrow> addr \<Rightarrow> world \<Rightarrow> world" where
  "Builder_AddAll M args b \<sigma> =
     (if length args mod 2 \<noteq> 0
      then set_Err b (Some (errorString ''AddAll takes an even number of args'')) \<sigma>
      else Builder_AddAll_loop M 0 args b \<sigma>)"

definition Builder_Close :: "addr \<Rightarrow> world \<Rightarrow> world" where
  "Builder_Close b \<sigma> =
     (if state (heap \<sigma> b) = closedState
      then set_Err b (Some (errorString ''ListBuilder mutated after Close()'')) \<sigma>
      else
        (let (e, \<sigma>1) = checkSub b \<sigma>
         in if e \<noteq> None then \<sigma>1
            else set_state b closedState (write ''}'' b \<sigma>1)))"

section \<open>ListBuilder\<close>

definition ListBuilder_init :: "addr \<Rightarrow> world \<Rightarrow> world" where
  "ListBuilder_init b \<sigma> =
     write ''['' b
       (if state (heap \<sigma> b) \<noteq> startState
        then set_Err b (Some (errorString ''ListBuilder init'd after being mutated'')) \<sigma>
        else \<sigma>)"

definition NewListBuilder :: "world \<Rightarrow> addr \<times> world" where
  "NewListBuilder \<sigma> = (let (b, \<sigma>1) = alloc \<sigma> in (b, ListBuilder_init b \<sigma>1))"

definition ListBuilder_preadd :: "addr \<Rightarrow> world \<Rightarrow> error option \<times> world" where
  "ListBuilder_preadd b \<sigma> =
     (let \<sigma>1 = (if state (heap \<sigma> b) = closedState
                then set_Err b (Some (errorString ''ListWriter mutated after Close()'')) \<sigma>
                else \<sigma>);
          (e, \<sigma>2) = checkSub b \<sigma>1
      in if e \<noteq> None then (e, \<sigma>2)
         else
           (let \<sigma>3 = (if state (heap \<sigma>2 b) = startState
                      then set_state b openedState \<sigma>2
                      else write '','' b \<sigma>2)
            in (Err (heap \<sigma>3 b), \<sigma>3)))"

definition ListBuilder_Add :: "marshal \<Rightarrow> val \<Rightarrow> addr \<Rightarrow> world \<Rightarrow> world" where
  "ListBuilder_Add M v b \<sigma> =
     (let (e, \<sigma>1) = ListBuilder_preadd b \<sigma>
      in if e \<noteq> None then \<sigma>1
         else (let (ev, \<sigma>2) = encode M v \<sigma>1 in set_Err b ev \<sigma>2))"

text \<open>\<open>ListBuilder.AddAll\<close>: \<open>for i := 0; i < len(args) && b.Err == nil; i++\<close>.\<close>

fun ListBuilder_AddAll :: "marshal \<Rightarrow> val list \<Rightarrow> addr \<Rightarrow> world \<Rightarrow> world" where
  "ListBuilder_AddAll M [] b \<sigma> = \<sigma>"
| "ListBuilder_AddAll M (v # rest) b \<sigma> =
     (if Err (heap \<sigma> b) = None
      then ListBuilder_AddAll M rest b (ListBuilder_Add M v b \<sigma>)
      else \<sigma>)"

definition ListBuilder_Close :: "addr \<Rightarrow> world \<Rightarrow> world" where
  "ListBuilder_Close b \<sigma> =
     (if state (heap \<sigma> b) = closedState
      then set_Err b (Some (errorString ''ListWriter mutated after Close()'')) \<sigma>
      else
        (let (e, \<sigma>1) = checkSub b \<sigma>
         in if e \<noteq> None then \<sigma>1
            else set_state b closedState (write '']'' b \<sigma>1)))"

section \<open>Nested writers\<close>

text \<open>
  The four methods that hand a child to the caller. A returned pointer is
  \<open>addr option\<close>, \<open>None\<close> for nil. \<open>Builder.AddObject\<close>, \<open>Builder.AddList\<close> and
  \<open>ListBuilder.AddList\<close> drop the result of \<open>preadd\<close>; \<open>ListBuilder.AddObject\<close>
  tests it, and does not assign \<open>b.subB\<close>.
\<close>

definition Builder_AddObject :: "marshal \<Rightarrow> string \<Rightarrow> addr \<Rightarrow> world \<Rightarrow> addr option \<times> world" where
  "Builder_AddObject M key b \<sigma> =
     (let (e, \<sigma>1) = Builder_preadd M key b \<sigma>;
          (s, \<sigma>2) = alloc \<sigma>1;
          \<sigma>3 = Builder_init s \<sigma>2
      in (Some s, set_subB b (Some s) \<sigma>3))"

definition Builder_AddList :: "marshal \<Rightarrow> string \<Rightarrow> addr \<Rightarrow> world \<Rightarrow> addr option \<times> world" where
  "Builder_AddList M key b \<sigma> =
     (let (e, \<sigma>1) = Builder_preadd M key b \<sigma>;
          (s, \<sigma>2) = alloc \<sigma>1;
          \<sigma>3 = ListBuilder_init s \<sigma>2
      in (Some s, set_subB b (Some s) \<sigma>3))"

definition ListBuilder_AddObject :: "addr \<Rightarrow> world \<Rightarrow> addr option \<times> world" where
  "ListBuilder_AddObject b \<sigma> =
     (let (e, \<sigma>1) = ListBuilder_preadd b \<sigma>
      in if e \<noteq> None then (None, \<sigma>1)
         else (let (s, \<sigma>2) = alloc \<sigma>1 in (Some s, Builder_init s \<sigma>2)))"

definition ListBuilder_AddList :: "addr \<Rightarrow> world \<Rightarrow> addr option \<times> world" where
  "ListBuilder_AddList b \<sigma> =
     (let (e, \<sigma>1) = ListBuilder_preadd b \<sigma>;
          (s, \<sigma>2) = alloc \<sigma>1;
          \<sigma>3 = ListBuilder_init s \<sigma>2
      in (Some s, set_subB b (Some s) \<sigma>3))"

text \<open>
  A \<open>BuilderFunc\<close> or \<open>ListBuilderFunc\<close> is a Go closure: given the child it may
  change anything it can reach and returns an error or nil.
\<close>

type_synonym BuilderFunc = "addr \<Rightarrow> world \<Rightarrow> error option \<times> world"

definition Builder_AddObjectFunc :: "marshal \<Rightarrow> string \<Rightarrow> BuilderFunc \<Rightarrow> addr \<Rightarrow> world \<Rightarrow> world" where
  "Builder_AddObjectFunc M key f b \<sigma> =
     (let (e, \<sigma>1) = Builder_preadd M key b \<sigma>
      in if e \<noteq> None then \<sigma>1
         else
           (let (s, \<sigma>2) = alloc \<sigma>1;
                \<sigma>3 = Builder_init s \<sigma>2;
                (ef, \<sigma>4) = f s \<sigma>3;
                \<sigma>5 = set_Err b ef \<sigma>4;
                \<sigma>6 = (if Err (heap \<sigma>5 b) = None then set_Err b (Err (heap \<sigma>5 s)) \<sigma>5 else \<sigma>5)
            in Builder_Close s \<sigma>6))"

definition Builder_AddListFunc :: "marshal \<Rightarrow> string \<Rightarrow> BuilderFunc \<Rightarrow> addr \<Rightarrow> world \<Rightarrow> world" where
  "Builder_AddListFunc M key f b \<sigma> =
     (let (e, \<sigma>1) = Builder_preadd M key b \<sigma>
      in if e \<noteq> None then \<sigma>1
         else
           (let (s, \<sigma>2) = alloc \<sigma>1;
                \<sigma>3 = ListBuilder_init s \<sigma>2;
                (ef, \<sigma>4) = f s \<sigma>3;
                \<sigma>5 = set_Err b ef \<sigma>4;
                \<sigma>6 = (if Err (heap \<sigma>5 b) = None then set_Err b (Err (heap \<sigma>5 s)) \<sigma>5 else \<sigma>5)
            in ListBuilder_Close s \<sigma>6))"

definition ListBuilder_AddObjectFunc :: "BuilderFunc \<Rightarrow> addr \<Rightarrow> world \<Rightarrow> world" where
  "ListBuilder_AddObjectFunc f b \<sigma> =
     (let (e, \<sigma>1) = ListBuilder_preadd b \<sigma>
      in if e \<noteq> None then \<sigma>1
         else
           (let (s, \<sigma>2) = alloc \<sigma>1;
                \<sigma>3 = Builder_init s \<sigma>2;
                (ef, \<sigma>4) = f s \<sigma>3;
                \<sigma>5 = set_Err b ef \<sigma>4;
                \<sigma>6 = (if Err (heap \<sigma>5 b) = None then set_Err b (Err (heap \<sigma>5 s)) \<sigma>5 else \<sigma>5)
            in Builder_Close s \<sigma>6))"

definition ListBuilder_AddListFunc :: "BuilderFunc \<Rightarrow> addr \<Rightarrow> world \<Rightarrow> world" where
  "ListBuilder_AddListFunc f b \<sigma> =
     (let (e, \<sigma>1) = ListBuilder_preadd b \<sigma>
      in if e \<noteq> None then \<sigma>1
         else
           (let (s, \<sigma>2) = alloc \<sigma>1;
                \<sigma>3 = ListBuilder_init s \<sigma>2;
                (ef, \<sigma>4) = f s \<sigma>3;
                \<sigma>5 = set_Err b ef \<sigma>4;
                \<sigma>6 = (if Err (heap \<sigma>5 b) = None then set_Err b (Err (heap \<sigma>5 s)) \<sigma>5 else \<sigma>5)
            in ListBuilder_Close s \<sigma>6))"

section \<open>Concrete runs\<close>

text \<open>
  A world with nothing written, no writer allocated and the given plan for the sink
  (a \<open>bytes.Buffer\<close> is \<open>fresh []\<close>).
\<close>

definition fresh :: "outcome list \<Rightarrow> world" where
  "fresh p =
     \<lparr>out = [], plan = p, heap = (\<lambda>a. \<lparr>state = startState, subB = None, Err = None\<rparr>),
      nxt = 0, wlog = []\<rparr>"

text \<open>
  One marshaller for the concrete runs. It agrees with \<open>json.Marshal\<close> on booleans,
  on integers (decimal digits, a leading minus sign), on strings of characters that
  JSON does not escape (the string between double quotes), and on a channel, for which
  \<open>json.Marshal\<close> returns an \<open>UnsupportedTypeError\<close>.
\<close>

fun digits :: "nat \<Rightarrow> string" where
  "digits n = (if n < 10 then [''0123456789'' ! n] else digits (n div 10) @ [''0123456789'' ! (n mod 10)])"

declare digits.simps [simp del]

definition Marshal_sample :: marshal where
  "Marshal_sample v =
     (case v of
        VString s \<Rightarrow> Inr ([CHR 0x22] @ s @ [CHR 0x22])
      | VInt i \<Rightarrow> Inr (if i < 0 then ''-'' @ digits (nat (- i)) else digits (nat i))
      | VBool t \<Rightarrow> Inr (if t then ''true'' else ''false'')
      | VChan \<Rightarrow> Inl (errorString ''json: unsupported type: chan int''))"

text \<open>The writers that the concrete runs below start from.\<close>

definition closed_object :: world where
  "closed_object = Builder_Close 0 (snd (NewBuilder (fresh [])))"

definition closed_list :: world where
  "closed_list = ListBuilder_Close 0 (snd (NewListBuilder (fresh [])))"

section \<open>Conditions on a run\<close>

text \<open>The sink accepts the next \<open>n\<close> calls of \<open>Write\<close>; it accepts every call.\<close>

definition accepts :: "nat \<Rightarrow> world \<Rightarrow> bool" where
  "accepts n \<sigma> = list_all (\<lambda>r. r = Accept) (take n (plan \<sigma>))"


text \<open>
  The conditions under which the pre-add protocol of the writer \<open>b\<close> fails before it
  writes: its error is set, it is closed, or its active child has an error or is not
  closed.
\<close>

definition blocked :: "addr \<Rightarrow> world \<Rightarrow> bool" where
  "blocked b \<sigma> =
     (Err (heap \<sigma> b) \<noteq> None \<or> state (heap \<sigma> b) = closedState \<or>
      (case subB (heap \<sigma> b) of
         None \<Rightarrow> False
       | Some s \<Rightarrow> Err (heap \<sigma> s) \<noteq> None \<or> state (heap \<sigma> s) \<noteq> closedState))"

text \<open>
  The argument list of \<open>AddAll\<close> that holds the given keys and values in turn, and
  the test \<open>args[i].(string)\<close>.
\<close>

definition pairs :: "(string \<times> val) list \<Rightarrow> val list" where
  "pairs kvs = concat (map (\<lambda>(k, v). [VString k, v]) kvs)"

definition isString :: "val \<Rightarrow> bool" where
  "isString v = (case v of VString s \<Rightarrow> True | _ \<Rightarrow> False)"







section \<open>Calls\<close>

text \<open>
  One call of a method of \<open>Builder\<close> or of \<open>ListBuilder\<close> on the writer \<open>b\<close>, chosen
  by a value: statements about every operation range over these.
\<close>

datatype bop = Add string val | AddAll "val list" | AddObject string | AddList string
  | AddObjectFunc string BuilderFunc | AddListFunc string BuilderFunc | Close

fun Builder_call :: "marshal \<Rightarrow> bop \<Rightarrow> addr \<Rightarrow> world \<Rightarrow> world" where
  "Builder_call M (Add key v) b \<sigma> = Builder_Add M key v b \<sigma>"
| "Builder_call M (AddAll args) b \<sigma> = Builder_AddAll M args b \<sigma>"
| "Builder_call M (AddObject key) b \<sigma> = snd (Builder_AddObject M key b \<sigma>)"
| "Builder_call M (AddList key) b \<sigma> = snd (Builder_AddList M key b \<sigma>)"
| "Builder_call M (AddObjectFunc key f) b \<sigma> = Builder_AddObjectFunc M key f b \<sigma>"
| "Builder_call M (AddListFunc key f) b \<sigma> = Builder_AddListFunc M key f b \<sigma>"
| "Builder_call M Close b \<sigma> = Builder_Close b \<sigma>"

datatype lop = LAdd val | LAddAll "val list" | LAddObject | LAddList
  | LAddObjectFunc BuilderFunc | LAddListFunc BuilderFunc | LClose

fun ListBuilder_call :: "marshal \<Rightarrow> lop \<Rightarrow> addr \<Rightarrow> world \<Rightarrow> world" where
  "ListBuilder_call M (LAdd v) b \<sigma> = ListBuilder_Add M v b \<sigma>"
| "ListBuilder_call M (LAddAll args) b \<sigma> = ListBuilder_AddAll M args b \<sigma>"
| "ListBuilder_call M LAddObject b \<sigma> = snd (ListBuilder_AddObject b \<sigma>)"
| "ListBuilder_call M LAddList b \<sigma> = snd (ListBuilder_AddList b \<sigma>)"
| "ListBuilder_call M (LAddObjectFunc f) b \<sigma> = ListBuilder_AddObjectFunc f b \<sigma>"
| "ListBuilder_call M (LAddListFunc f) b \<sigma> = ListBuilder_AddListFunc f b \<sigma>"
| "ListBuilder_call M LClose b \<sigma> = ListBuilder_Close b \<sigma>"

text \<open>
  The usage error that a call assigns to \<open>Err\<close> without looking at the field first, by
  the state in which the call finds the writer: the \<open>errors.New\<close> at the head of
  \<open>preadd\<close>, of \<open>Close\<close> and of \<open>Builder.AddAll\<close>. \<open>None\<close> when the call assigns
  none.
\<close>

fun Builder_usage_error :: "bop \<Rightarrow> writerState \<Rightarrow> error option" where
  "Builder_usage_error (AddAll args) st =
     (if odd (length args) then Some (errorString ''AddAll takes an even number of args'') else None)"
| "Builder_usage_error Close st =
     (if st = closedState then Some (errorString ''ListBuilder mutated after Close()'') else None)"
| "Builder_usage_error opn st =
     (if st = closedState then Some (errorString ''Builder mutated after Close()'') else None)"

fun ListBuilder_usage_error :: "lop \<Rightarrow> writerState \<Rightarrow> error option" where
  "ListBuilder_usage_error (LAddAll args) st = None"
| "ListBuilder_usage_error opn st =
     (if st = closedState then Some (errorString ''ListWriter mutated after Close()'') else None)"

section \<open>Worlds of the concrete runs\<close>

text \<open>A writer whose construction met a sink that rejects the first write.\<close>

definition failed_object :: world where
  "failed_object = snd (NewBuilder (fresh [Reject 0 (errorString ''disk full'')]))"

definition failed_list :: world where
  "failed_list = snd (NewListBuilder (fresh [Reject 0 (errorString ''disk full'')]))"

text \<open>
  A list and an object with a child that the caller has not closed:
  \<open>NewListBuilder(w).AddObject()\<close>, \<open>NewListBuilder(w).AddList()\<close> and
  \<open>NewBuilder(w).AddObject("2")\<close>.
\<close>

definition list_with_open_object :: world where
  "list_with_open_object = snd (ListBuilder_AddObject 0 (snd (NewListBuilder (fresh []))))"

definition list_with_open_list :: world where
  "list_with_open_list = snd (ListBuilder_AddList 0 (snd (NewListBuilder (fresh []))))"

definition object_with_open_object :: world where
  "object_with_open_object =
     snd (Builder_AddObject Marshal_sample ''2'' 0 (snd (NewBuilder (fresh []))))"

text \<open>
  An object after \<open>Add("a", 1)\<close> on a sink that accepts four writes and rejects the
  fifth.
\<close>

definition flaky_object :: world where
  "flaky_object =
     Builder_Add Marshal_sample ''a'' (VInt 1) 0
       (snd (NewBuilder (fresh [Accept, Accept, Accept, Accept, Reject 0 (errorString ''timeout'')])))"

text \<open>
  Two values of \<open>BuilderFunc\<close>: \<open>func(w *Builder) error { w.AddObject("x"); return nil }\<close>
  and the \<open>f\<close> of the tests, \<open>func(w *Builder) error { w.Add("baz", 7); return nil }\<close>;
  and \<open>NewBuilder(w).AddObjectFunc("foo", ...)\<close> with the first.
\<close>

definition leaves_child_open :: BuilderFunc where
  "leaves_child_open w \<sigma> = (None, snd (Builder_AddObject Marshal_sample ''x'' w \<sigma>))"

definition adds_baz :: BuilderFunc where
  "adds_baz w \<sigma> = (None, Builder_Add Marshal_sample ''baz'' (VInt 7) w \<sigma>)"

definition object_via_open :: world where
  "object_via_open =
     Builder_AddObjectFunc Marshal_sample ''foo'' leaves_child_open 0 (snd (NewBuilder (fresh [])))"

section \<open>The writes of one writer\<close>

text \<open>The strings that the method \<open>write\<close> of the writer \<open>b\<close> has sent to the sink.\<close>

definition wrote :: "addr \<Rightarrow> world \<Rightarrow> string list" where
  "wrote b \<sigma> = map snd (filter (\<lambda>p. fst p = b) (wlog \<sigma>))"

text \<open>
  The world \<open>\<sigma>'\<close> comes after \<open>\<sigma>\<close>, and in between the writer \<open>b\<close> has written
  commas and colons only and has neither been closed nor reopened. Code is \<open>apart\<close>
  from \<open>b\<close> when every run of it is such a step: the calls on other writers are, and
  so are the functions handed to the \<open>...Func\<close> methods unless they reach back to
  \<open>b\<close> and close it.
\<close>

definition quiet :: "addr \<Rightarrow> world \<Rightarrow> world \<Rightarrow> bool" where
  "quiet b \<sigma> \<sigma>' =
     (nxt \<sigma> \<le> nxt \<sigma>' \<and>
      (state (heap \<sigma>' b) = closedState) = (state (heap \<sigma> b) = closedState) \<and>
      (\<exists>ws. wrote b \<sigma>' = wrote b \<sigma> @ ws \<and> set ws \<subseteq> {'','', '':''}))"

definition apart :: "addr \<Rightarrow> (world \<Rightarrow> world) \<Rightarrow> bool" where
  "apart b g = (\<forall>\<sigma>. b < nxt \<sigma> \<longrightarrow> quiet b \<sigma> (g \<sigma>))"

fun callback_apart :: "addr \<Rightarrow> bop \<Rightarrow> bool" where
  "callback_apart b (AddObjectFunc key f) = (\<forall>s. s \<noteq> b \<longrightarrow> apart b (\<lambda>\<sigma>. snd (f s \<sigma>)))"
| "callback_apart b (AddListFunc key f) = (\<forall>s. s \<noteq> b \<longrightarrow> apart b (\<lambda>\<sigma>. snd (f s \<sigma>)))"
| "callback_apart b opn = True"

fun list_callback_apart :: "addr \<Rightarrow> lop \<Rightarrow> bool" where
  "list_callback_apart b (LAddObjectFunc f) = (\<forall>s. s \<noteq> b \<longrightarrow> apart b (\<lambda>\<sigma>. snd (f s \<sigma>)))"
| "list_callback_apart b (LAddListFunc f) = (\<forall>s. s \<noteq> b \<longrightarrow> apart b (\<lambda>\<sigma>. snd (f s \<sigma>)))"
| "list_callback_apart b opn = True"

text \<open>
  The worlds in the lifetime of a writer: after its construction (on a world that has
  logged nothing for the address it gets), after any call on it, and after any code that
  is apart from it.
\<close>

inductive Builder_lifetime :: "marshal \<Rightarrow> addr \<Rightarrow> world \<Rightarrow> bool" for M b where
  new: "wrote (nxt \<sigma>) \<sigma> = [] \<Longrightarrow> b = fst (NewBuilder \<sigma>) \<Longrightarrow> Builder_lifetime M b (snd (NewBuilder \<sigma>))"
| call: "Builder_lifetime M b \<sigma> \<Longrightarrow> callback_apart b opn \<Longrightarrow>
         Builder_lifetime M b (Builder_call M opn b \<sigma>)"
| other: "Builder_lifetime M b \<sigma> \<Longrightarrow> apart b g \<Longrightarrow> Builder_lifetime M b (g \<sigma>)"

inductive ListBuilder_lifetime :: "marshal \<Rightarrow> addr \<Rightarrow> world \<Rightarrow> bool" for M b where
  new: "wrote (nxt \<sigma>) \<sigma> = [] \<Longrightarrow> b = fst (NewListBuilder \<sigma>) \<Longrightarrow>
        ListBuilder_lifetime M b (snd (NewListBuilder \<sigma>))"
| call: "ListBuilder_lifetime M b \<sigma> \<Longrightarrow> list_callback_apart b opn \<Longrightarrow>
         ListBuilder_lifetime M b (ListBuilder_call M opn b \<sigma>)"
| other: "ListBuilder_lifetime M b \<sigma> \<Longrightarrow> apart b g \<Longrightarrow> ListBuilder_lifetime M b (g \<sigma>)"

text \<open>
  \<open>b := NewBuilder(w); s := b.AddObject("foo"); s.Add("bar", 7); s.Close(); b.Close();
  b.Close()\<close> and \<open>l := NewListBuilder(w); l.Add(1); l.Close()\<close>.
\<close>

definition object_life :: world where
  "object_life =
     Builder_Close 0 (Builder_Close 0 (Builder_Close 1
       (Builder_Add Marshal_sample ''bar'' (VInt 7) 1
         (snd (Builder_AddObject Marshal_sample ''foo'' 0 (snd (NewBuilder (fresh []))))))))"

definition list_life :: world where
  "list_life =
     ListBuilder_Close 0 (ListBuilder_Add Marshal_sample (VInt 1) 0
       (snd (NewListBuilder (fresh []))))"

text \<open>The delimiters among the writes of one writer.\<close>

definition delimiters :: "string \<Rightarrow> string \<Rightarrow> addr \<Rightarrow> world \<Rightarrow> bool" where
  "delimiters l r b \<sigma> =
     (b < nxt \<sigma> \<and> count_list (wrote b \<sigma>) l = 1 \<and>
      count_list (wrote b \<sigma>) r = (if state (heap \<sigma> b) = closedState then 1 else 0))"

section \<open>A child that a constructor hands out\<close>

text \<open>
  What a constructor called on the world \<open>\<sigma>\<close> has done when it returns the pointer
  \<open>r\<close> and the world \<open>\<sigma>'\<close>, its pre-add protocol having written nothing: \<open>r\<close> is
  the address allocated last, the writer there is new (state 0, no child), its \<open>init\<close>
  has sent the opening delimiter \<open>d\<close> to the sink, and its error is what the sink
  returned.
\<close>

definition opened_child :: "string \<Rightarrow> addr option \<Rightarrow> world \<Rightarrow> world \<Rightarrow> bool" where
  "opened_child d r \<sigma> \<sigma>' =
     (r = Some (nxt \<sigma>) \<and> nxt \<sigma>' = Suc (nxt \<sigma>) \<and>
      state (heap \<sigma>' (nxt \<sigma>)) = startState \<and> subB (heap \<sigma>' (nxt \<sigma>)) = None \<and>
      Err (heap \<sigma>' (nxt \<sigma>)) = fst (Write d \<sigma>) \<and>
      wlog \<sigma>' = wlog \<sigma> @ [(nxt \<sigma>, d)] \<and>
      out \<sigma>' = out (snd (Write d \<sigma>)) \<and> plan \<sigma>' = plan (snd (Write d \<sigma>)))"

section \<open>Basic facts\<close>

lemmas run_defs =
  fresh_def NewBuilder_def NewListBuilder_def alloc_def Builder_init_def ListBuilder_init_def
  write_def Write_def set_Err_def set_state_def set_subB_def checkSub_def closed_def err_def
  encode_def Builder_preadd_def Builder_Add_def Builder_AddAll_def Builder_Close_def
  ListBuilder_preadd_def ListBuilder_Add_def ListBuilder_Close_def
  Builder_AddObject_def Builder_AddList_def ListBuilder_AddObject_def ListBuilder_AddList_def
  Builder_AddObjectFunc_def Builder_AddListFunc_def
  ListBuilder_AddObjectFunc_def ListBuilder_AddListFunc_def
  Marshal_sample_def closed_object_def closed_list_def Let_def

lemma set_Err_same: "Err (heap \<sigma> b) = e \<Longrightarrow> set_Err b e \<sigma> = \<sigma>"
  by (auto simp: set_Err_def)

lemma checkSub_fails:
  "Err (heap \<sigma> b) \<noteq> None \<or>
     (case subB (heap \<sigma> b) of
        None \<Rightarrow> False
      | Some s \<Rightarrow> Err (heap \<sigma> s) \<noteq> None \<or> state (heap \<sigma> s) \<noteq> closedState)
   \<Longrightarrow> fst (checkSub b \<sigma>) \<noteq> None"
  by (auto simp: checkSub_def Let_def set_Err_def set_subB_def err_def closed_def
      split: option.splits if_splits)

lemma ListBuilder_preadd_blocked: "blocked b \<sigma> \<Longrightarrow> fst (ListBuilder_preadd b \<sigma>) \<noteq> None"
  unfolding ListBuilder_preadd_def Let_def blocked_def
  using checkSub_fails[of \<sigma> b]
    checkSub_fails[of "set_Err b (Some (errorString ''ListWriter mutated after Close()'')) \<sigma>" b]
  by (auto simp: set_Err_def split: prod.splits)

lemma Builder_preadd_blocked: "blocked b \<sigma> \<Longrightarrow> fst (Builder_preadd M key b \<sigma>) \<noteq> None"
  unfolding Builder_preadd_def Let_def blocked_def
  using checkSub_fails[of \<sigma> b]
    checkSub_fails[of "set_Err b (Some (errorString ''Builder mutated after Close()'')) \<sigma>" b]
  by (auto simp: set_Err_def split: prod.splits)

lemma Builder_preadd_returns_Err:
  "fst (Builder_preadd M key b \<sigma>) = Err (heap (snd (Builder_preadd M key b \<sigma>)) b)"
  by (simp add: Builder_preadd_def checkSub_def Let_def split: prod.splits)

lemma ListBuilder_preadd_returns_Err:
  "fst (ListBuilder_preadd b \<sigma>) = Err (heap (snd (ListBuilder_preadd b \<sigma>)) b)"
  by (simp add: ListBuilder_preadd_def checkSub_def Let_def split: prod.splits)

lemma Write_accepts:
  "accepts (Suc n) \<sigma> \<Longrightarrow> Write x \<sigma> = (None, \<sigma>\<lparr>out := out \<sigma> @ x, plan := tl (plan \<sigma>)\<rparr>)"
  by (cases \<sigma>) (auto simp: accepts_def Write_def split: list.splits outcome.splits)

lemma accepts_tl: "accepts (Suc n) \<sigma> \<Longrightarrow> list_all (\<lambda>r. r = Accept) (take n (tl (plan \<sigma>)))"
  by (cases "plan \<sigma>") (auto simp: accepts_def)

lemma write_accepts:
  "accepts (Suc n) \<sigma> \<Longrightarrow> Err (heap \<sigma> b) = None \<Longrightarrow>
   write x b \<sigma> = \<sigma>\<lparr>out := out \<sigma> @ x, plan := tl (plan \<sigma>), wlog := wlog \<sigma> @ [(b, x)]\<rparr>"
  by (simp add: write_def Write_accepts set_Err_same)

lemma accepts_write:
  "accepts (Suc n) \<sigma> \<Longrightarrow> Err (heap \<sigma> b) = None \<Longrightarrow> accepts n (write x b \<sigma>)"
  by (simp add: write_accepts) (simp add: accepts_def accepts_tl)

lemma checkSub_ready:
  "Err (heap \<sigma> b) = None \<Longrightarrow> subB (heap \<sigma> b) = None \<Longrightarrow> checkSub b \<sigma> = (None, \<sigma>)"
  by (simp add: checkSub_def)

lemma new_writer:
  assumes "accepts (Suc n) \<sigma>"
  shows "write x (nxt \<sigma>) (snd (alloc \<sigma>)) =
     \<sigma>\<lparr>out := out \<sigma> @ x, plan := tl (plan \<sigma>), wlog := wlog \<sigma> @ [(nxt \<sigma>, x)],
       heap := (heap \<sigma>)(nxt \<sigma> := \<lparr>state = startState, subB = None, Err = None\<rparr>),
       nxt := Suc (nxt \<sigma>)\<rparr>"
proof -
  have "accepts (Suc n) (snd (alloc \<sigma>))" "Err (heap (snd (alloc \<sigma>)) (nxt \<sigma>)) = None"
    using assms by (simp_all add: alloc_def accepts_def)
  then show ?thesis
    by (simp add: write_accepts) (simp add: alloc_def)
qed

lemma NewBuilder_accepts:
  "accepts (Suc n) \<sigma> \<Longrightarrow> NewBuilder \<sigma> =
     (nxt \<sigma>,
      \<sigma>\<lparr>out := out \<sigma> @ ''{'', plan := tl (plan \<sigma>), wlog := wlog \<sigma> @ [(nxt \<sigma>, ''{'')],
        heap := (heap \<sigma>)(nxt \<sigma> := \<lparr>state = startState, subB = None, Err = None\<rparr>),
        nxt := Suc (nxt \<sigma>)\<rparr>)"
  using new_writer [of n \<sigma> "''{''"]
  by (simp add: NewBuilder_def Builder_init_def) (simp add: alloc_def)

lemma NewListBuilder_accepts:
  "accepts (Suc n) \<sigma> \<Longrightarrow> NewListBuilder \<sigma> =
     (nxt \<sigma>,
      \<sigma>\<lparr>out := out \<sigma> @ ''['', plan := tl (plan \<sigma>), wlog := wlog \<sigma> @ [(nxt \<sigma>, ''['')],
        heap := (heap \<sigma>)(nxt \<sigma> := \<lparr>state = startState, subB = None, Err = None\<rparr>),
        nxt := Suc (nxt \<sigma>)\<rparr>)"
  using new_writer [of n \<sigma> "''[''"]
  by (simp add: NewListBuilder_def ListBuilder_init_def) (simp add: alloc_def)

lemma Builder_Close_ready:
  assumes "accepts (Suc n) \<sigma>" "Err (heap \<sigma> b) = None" "subB (heap \<sigma> b) = None"
    "state (heap \<sigma> b) \<noteq> closedState"
  shows "Builder_Close b \<sigma> =
     \<sigma>\<lparr>out := out \<sigma> @ ''}'', plan := tl (plan \<sigma>), wlog := wlog \<sigma> @ [(b, ''}'')],
       heap := (heap \<sigma>)(b := (heap \<sigma> b)\<lparr>state := closedState\<rparr>)\<rparr>"
  using assms by (simp add: Builder_Close_def checkSub_ready write_accepts set_state_def)

lemma ListBuilder_Close_ready:
  assumes "accepts (Suc n) \<sigma>" "Err (heap \<sigma> b) = None" "subB (heap \<sigma> b) = None"
    "state (heap \<sigma> b) \<noteq> closedState"
  shows "ListBuilder_Close b \<sigma> =
     \<sigma>\<lparr>out := out \<sigma> @ '']'', plan := tl (plan \<sigma>), wlog := wlog \<sigma> @ [(b, '']'')],
       heap := (heap \<sigma>)(b := (heap \<sigma> b)\<lparr>state := closedState\<rparr>)\<rparr>"
  using assms by (simp add: ListBuilder_Close_def checkSub_ready write_accepts set_state_def)

section \<open>Closing an empty writer\<close>

text \<open>
  Claim C5. \<open>Close()\<close> called on a writer right after its construction, with no add in
  between, appends exactly \<open>{}\<close> (a \<open>Builder\<close>) or \<open>[]\<close> (a \<open>ListBuilder\<close>) to the
  sink and leaves the writer closed with a nil error, when the sink accepts the two
  writes.
\<close>

theorem close_after_construction:
  assumes "accepts 2 \<sigma>"
  shows "out (Builder_Close (fst (NewBuilder \<sigma>)) (snd (NewBuilder \<sigma>))) = out \<sigma> @ ''{}'' \<and>
         Err (heap (Builder_Close (fst (NewBuilder \<sigma>)) (snd (NewBuilder \<sigma>)))
                (fst (NewBuilder \<sigma>))) = None \<and>
         out (ListBuilder_Close (fst (NewListBuilder \<sigma>)) (snd (NewListBuilder \<sigma>))) = out \<sigma> @ ''[]'' \<and>
         Err (heap (ListBuilder_Close (fst (NewListBuilder \<sigma>)) (snd (NewListBuilder \<sigma>)))
                (fst (NewListBuilder \<sigma>))) = None"
proof -
  have a: "accepts (Suc 1) \<sigma>"
    using assms by (simp add: numeral_2_eq_2)
  have t: "accepts (Suc 0) (snd (NewBuilder \<sigma>))" "accepts (Suc 0) (snd (NewListBuilder \<sigma>))"
    using accepts_tl [OF a]
    by (simp_all add: NewBuilder_accepts [OF a] NewListBuilder_accepts [OF a] accepts_def)
  have b: "out (Builder_Close (fst (NewBuilder \<sigma>)) (snd (NewBuilder \<sigma>))) = out \<sigma> @ ''{}''"
    "Err (heap (Builder_Close (fst (NewBuilder \<sigma>)) (snd (NewBuilder \<sigma>)))
                (fst (NewBuilder \<sigma>))) = None"
    by (subst Builder_Close_ready [OF t(1)]; simp add: NewBuilder_accepts [OF a])+
  have l: "out (ListBuilder_Close (fst (NewListBuilder \<sigma>)) (snd (NewListBuilder \<sigma>))) = out \<sigma> @ ''[]''"
    "Err (heap (ListBuilder_Close (fst (NewListBuilder \<sigma>)) (snd (NewListBuilder \<sigma>)))
                (fst (NewListBuilder \<sigma>))) = None"
    by (subst ListBuilder_Close_ready [OF t(2)]; simp add: NewListBuilder_accepts [OF a])+
  show ?thesis using b l by simp
qed

theorem close_after_construction_witness:
  "accepts 2 (fresh [Accept, Accept]) \<and>
   out (Builder_Close 0 (snd (NewBuilder (fresh [Accept, Accept])))) = ''{}'' \<and>
   Err (heap (Builder_Close 0 (snd (NewBuilder (fresh [Accept, Accept])))) 0) = None \<and>
   out (ListBuilder_Close 0 (snd (NewListBuilder (fresh [Accept, Accept])))) = ''[]'' \<and>
   Err (heap (ListBuilder_Close 0 (snd (NewListBuilder (fresh [Accept, Accept])))) 0) = None"
proof -
  have h: "accepts 2 (fresh [Accept, Accept])"
    by (simp add: accepts_def fresh_def)
  have n: "fst (NewBuilder (fresh [Accept, Accept])) = 0"
    "fst (NewListBuilder (fresh [Accept, Accept])) = 0" "out (fresh [Accept, Accept]) = []"
    by (simp_all add: NewBuilder_def NewListBuilder_def alloc_def fresh_def)
  show ?thesis
    using h close_after_construction [OF h] by (simp add: n)
qed

section \<open>A value that cannot be marshalled\<close>

text \<open>
  Claim C9. When \<open>json.Marshal\<close> fails on a value, \<open>encode\<close> returns nil and leaves
  the sink as it was; when it succeeds, \<open>encode\<close> returns what the sink's \<open>Write\<close>
  returns, so a failing write is reported. Hence \<open>Add\<close> with such a value does what
  the pre-add protocol does and nothing more, and the error of the writer after it is
  the one the pre-add protocol returned: the marshal failure is never recorded.
\<close>

theorem encode_swallows_marshal_failure:
  "(M v = Inl e \<longrightarrow>
      encode M v \<sigma> = (None, \<sigma>) \<and>
      Builder_Add M key v b \<sigma> = snd (Builder_preadd M key b \<sigma>) \<and>
      Err (heap (Builder_Add M key v b \<sigma>) b) = fst (Builder_preadd M key b \<sigma>) \<and>
      ListBuilder_Add M v b \<sigma> = snd (ListBuilder_preadd b \<sigma>) \<and>
      Err (heap (ListBuilder_Add M v b \<sigma>) b) = fst (ListBuilder_preadd b \<sigma>)) \<and>
   (M v' = Inr bs \<longrightarrow>
      encode M v' \<sigma>' = Write bs \<sigma>' \<and>
      (\<forall>n e' p. plan \<sigma>' = Reject n e' # p \<longrightarrow> fst (encode M v' \<sigma>') = Some e'))"
proof (intro conjI impI allI)
  assume f: "M v = Inl e"
  show "encode M v \<sigma> = (None, \<sigma>)"
    using f by (simp add: encode_def)
  show b: "Builder_Add M key v b \<sigma> = snd (Builder_preadd M key b \<sigma>)"
    using f Builder_preadd_returns_Err [of M key b \<sigma>]
    by (auto simp: Builder_Add_def encode_def set_Err_same split: prod.splits)
  show "Err (heap (Builder_Add M key v b \<sigma>) b) = fst (Builder_preadd M key b \<sigma>)"
    by (simp add: b Builder_preadd_returns_Err [symmetric])
  show l: "ListBuilder_Add M v b \<sigma> = snd (ListBuilder_preadd b \<sigma>)"
    using f ListBuilder_preadd_returns_Err [of b \<sigma>]
    by (auto simp: ListBuilder_Add_def encode_def set_Err_same split: prod.splits)
  show "Err (heap (ListBuilder_Add M v b \<sigma>) b) = fst (ListBuilder_preadd b \<sigma>)"
    by (simp add: l ListBuilder_preadd_returns_Err [symmetric])
next
  assume s: "M v' = Inr bs"
  show "encode M v' \<sigma>' = Write bs \<sigma>'"
    using s by (simp add: encode_def)
  fix n e' p
  assume "plan \<sigma>' = Reject n e' # p"
  then show "fst (encode M v' \<sigma>') = Some e'"
    using s by (simp add: encode_def Write_def)
qed

theorem encode_swallows_marshal_failure_witness:
  "Marshal_sample VChan = Inl (errorString ''json: unsupported type: chan int'') \<and>
   Marshal_sample (VInt 1) = Inr ''1'' \<and>
   fst (encode Marshal_sample VChan (fresh [])) = None \<and>
   out (snd (encode Marshal_sample VChan (fresh []))) = [] \<and>
   out (Builder_Add Marshal_sample ''k'' VChan 0 (snd (NewBuilder (fresh [])))) =
     [CHR ''{'', CHR 0x22, CHR ''k'', CHR 0x22, CHR '':''] \<and>
   Err (heap (Builder_Add Marshal_sample ''k'' VChan 0 (snd (NewBuilder (fresh [])))) 0) = None \<and>
   out (ListBuilder_Add Marshal_sample VChan 0 (snd (NewListBuilder (fresh [])))) = ''['' \<and>
   Err (heap (ListBuilder_Add Marshal_sample VChan 0 (snd (NewListBuilder (fresh [])))) 0) = None \<and>
   fst (encode Marshal_sample (VInt 1) (fresh [Reject 0 (errorString ''short write'')])) =
     Some (errorString ''short write'')"
proof -
  have f: "Marshal_sample VChan = Inl (errorString ''json: unsupported type: chan int'')"
    by (simp add: Marshal_sample_def)
  have s: "Marshal_sample (VInt 1) = Inr ''1''"
    by (simp add: Marshal_sample_def digits.simps)
  have p: "plan (fresh [Reject 0 (errorString ''short write'')]) =
      Reject 0 (errorString ''short write'') # []"
    by (simp add: fresh_def)
  note t = encode_swallows_marshal_failure
    [of Marshal_sample VChan "errorString ''json: unsupported type: chan int''" _ _ _
        "VInt 1" "''1''" "fresh [Reject 0 (errorString ''short write'')]"]
  have a: "fst (encode Marshal_sample VChan (fresh [])) = None"
    "out (snd (encode Marshal_sample VChan (fresh []))) = []"
    using t [of "fresh []"] f by (simp_all add: fresh_def)
  have b: "out (Builder_Add Marshal_sample ''k'' VChan 0 (snd (NewBuilder (fresh [])))) =
     [CHR ''{'', CHR 0x22, CHR ''k'', CHR 0x22, CHR '':'']"
    "Err (heap (Builder_Add Marshal_sample ''k'' VChan 0 (snd (NewBuilder (fresh [])))) 0) = None"
    using t [of "snd (NewBuilder (fresh []))" "''k''" 0] f
    by (simp_all add: run_defs)
  have l: "out (ListBuilder_Add Marshal_sample VChan 0 (snd (NewListBuilder (fresh [])))) = ''[''"
    "Err (heap (ListBuilder_Add Marshal_sample VChan 0 (snd (NewListBuilder (fresh [])))) 0) = None"
    using t [of "snd (NewListBuilder (fresh []))" _ 0] f
    by (simp_all add: run_defs)
  have w: "fst (encode Marshal_sample (VInt 1) (fresh [Reject 0 (errorString ''short write'')])) =
     Some (errorString ''short write'')"
    using t s p by blast
  show ?thesis
    using f s a b l w by simp
qed

section \<open>Facts about AddAll\<close>

lemma pairs_simps [simp]:
  "pairs [] = []" "pairs ((k, v) # kvs) = VString k # v # pairs kvs"
  "pairs (kvs @ kvs') = pairs kvs @ pairs kvs'"
  by (simp_all add: pairs_def)

lemma length_pairs [simp]: "length (pairs kvs) = 2 * length kvs"
  by (induction kvs) auto

lemma Builder_AddAll_loop_Err:
  "Err (heap \<sigma> b) \<noteq> None \<Longrightarrow> Builder_AddAll_loop M i args b \<sigma> = \<sigma>"
  by (cases "(M, i, args, b, \<sigma>)" rule: Builder_AddAll_loop.cases) auto

lemma Builder_AddAll_loop_prefix:
  "Builder_AddAll_loop M i (pairs kvs @ rest) b \<sigma> =
     (let \<sigma>' = Builder_AddAll_loop M i (pairs kvs) b \<sigma>
      in if Err (heap \<sigma>' b) = None then Builder_AddAll_loop M (i + 2 * length kvs) rest b \<sigma>'
         else \<sigma>')"
proof (induction kvs arbitrary: i \<sigma>)
  case Nil
  then show ?case by (simp add: Builder_AddAll_loop_Err)
next
  case (Cons kv kvs)
  obtain k v where kv: "kv = (k, v)" by (cases kv)
  show ?case
    by (auto simp: kv Cons.IH Let_def)
qed

lemma Builder_AddAll_loop_index:
  "Builder_AddAll_loop M i (pairs kvs) b \<sigma> = Builder_AddAll_loop M j (pairs kvs) b \<sigma>"
proof (induction kvs arbitrary: i j \<sigma>)
  case Nil
  then show ?case by simp
next
  case (Cons kv kvs)
  obtain k v where kv: "kv = (k, v)" by (cases kv)
  show ?case
    using Cons.IH [of "i + 2" _ "j + 2"] by (simp add: kv)
qed

lemma Builder_AddAll_loop_not_string:
  "\<not> isString k \<Longrightarrow> Builder_AddAll_loop M i (k # v # rest) b \<sigma> =
     (if Err (heap \<sigma> b) = None then set_Err b (Some (ArgNotString i k)) \<sigma> else \<sigma>)"
  by (cases k) (simp_all add: isString_def)

section \<open>The usage errors of AddAll\<close>

text \<open>
  Claim C8. \<open>Builder.AddAll\<close> with an odd number of arguments sets the usage error
  and changes nothing else, so it writes no byte. With a value that is not a string
  in a key position it does what it does on the pairs before that position and then, the
  writer having no error, sets the usage error that names the position. It stops at the
  first pair after which the writer has an error: for every split of the pairs the rest
  is processed only when the writer has no error after the first part, and each pair is
  one call of \<open>Add\<close>.
\<close>

theorem Builder_AddAll_usage_errors:
  "(odd (length args) \<longrightarrow>
      Builder_AddAll M args b \<sigma> =
        set_Err b (Some (errorString ''AddAll takes an even number of args'')) \<sigma> \<and>
      out (Builder_AddAll M args b \<sigma>) = out \<sigma>) \<and>
   (even (length rest) \<and> \<not> isString k \<longrightarrow>
      Builder_AddAll M (pairs kvs @ k # v # rest) b \<sigma> =
        (let \<sigma>' = Builder_AddAll M (pairs kvs) b \<sigma>
         in if Err (heap \<sigma>' b) = None
            then set_Err b (Some (ArgNotString (2 * length kvs) k)) \<sigma>' else \<sigma>')) \<and>
   Builder_AddAll M (pairs (kvs @ kvs')) b \<sigma> =
     (let \<sigma>' = Builder_AddAll M (pairs kvs) b \<sigma>
      in if Err (heap \<sigma>' b) = None then Builder_AddAll M (pairs kvs') b \<sigma>' else \<sigma>') \<and>
   Builder_AddAll M (pairs ((key, val) # kvs)) b \<sigma> =
     (if Err (heap \<sigma> b) = None then Builder_AddAll M (pairs kvs) b (Builder_Add M key val b \<sigma>)
      else \<sigma>)"
proof (intro conjI impI)
  assume "odd (length args)"
  then show "Builder_AddAll M args b \<sigma> =
      set_Err b (Some (errorString ''AddAll takes an even number of args'')) \<sigma>"
    by (simp add: Builder_AddAll_def odd_iff_mod_2_eq_one)
  then show "out (Builder_AddAll M args b \<sigma>) = out \<sigma>"
    by (simp add: set_Err_def)
next
  assume "even (length rest) \<and> \<not> isString k"
  then show "Builder_AddAll M (pairs kvs @ k # v # rest) b \<sigma> =
        (let \<sigma>' = Builder_AddAll M (pairs kvs) b \<sigma>
         in if Err (heap \<sigma>' b) = None
            then set_Err b (Some (ArgNotString (2 * length kvs) k)) \<sigma>' else \<sigma>')"
    by (simp add: Builder_AddAll_def Builder_AddAll_loop_prefix Builder_AddAll_loop_not_string
        Let_def del: Builder_AddAll_loop.simps)
next
  show "Builder_AddAll M (pairs (kvs @ kvs')) b \<sigma> =
     (let \<sigma>' = Builder_AddAll M (pairs kvs) b \<sigma>
      in if Err (heap \<sigma>' b) = None then Builder_AddAll M (pairs kvs') b \<sigma>' else \<sigma>')"
    using Builder_AddAll_loop_index [of M "2 * length kvs" kvs' b _ 0]
    by (simp add: Builder_AddAll_def Builder_AddAll_loop_prefix Let_def)
next
  show "Builder_AddAll M (pairs ((key, val) # kvs)) b \<sigma> =
     (if Err (heap \<sigma> b) = None then Builder_AddAll M (pairs kvs) b (Builder_Add M key val b \<sigma>)
      else \<sigma>)"
    using Builder_AddAll_loop_index [of M "Suc (Suc 0)" kvs b _ 0]
    by (simp add: Builder_AddAll_def)
qed


theorem Builder_AddAll_usage_errors_witness:
  "odd (length [VString ''a'']) \<and>
   Err (heap (Builder_AddAll Marshal_sample [VString ''a''] 0 (snd (NewBuilder (fresh [])))) 0) =
     Some (errorString ''AddAll takes an even number of args'') \<and>
   out (Builder_AddAll Marshal_sample [VString ''a''] 0 (snd (NewBuilder (fresh [])))) = ''{'' \<and>
   even (length [VString ''c'', VInt 3]) \<and> \<not> isString (VInt 2) \<and>
   Err (heap (Builder_AddAll Marshal_sample
          [VString ''a'', VInt 1, VInt 2, VString ''b'', VString ''c'', VInt 3] 0
          (snd (NewBuilder (fresh [])))) 0) = Some (ArgNotString 2 (VInt 2)) \<and>
   out (Builder_AddAll Marshal_sample
          [VString ''a'', VInt 1, VInt 2, VString ''b'', VString ''c'', VInt 3] 0
          (snd (NewBuilder (fresh [])))) = [CHR ''{'', CHR 0x22, CHR ''a'', CHR 0x22, CHR '':'', CHR ''1'']"
proof -
  let ?w = "snd (NewBuilder (fresh []))"
  note t = Builder_AddAll_usage_errors
    [of "[VString ''a'']" Marshal_sample 0 ?w "[VString ''c'', VInt 3]" "VInt 2"
        "[(''a'', VInt 1)]" "VString ''b''"]
  have o: "odd (length [VString ''a''])" by simp
  have e: "even (length [VString ''c'', VInt 3]) \<and> \<not> isString (VInt 2)"
    by (simp add: isString_def)
  have a: "Builder_AddAll Marshal_sample [VString ''a''] 0 ?w =
      set_Err 0 (Some (errorString ''AddAll takes an even number of args'')) ?w"
    using t o by blast
  have p: "pairs [(''a'', VInt 1)] @ VInt 2 # VString ''b'' # [VString ''c'', VInt 3] =
      [VString ''a'', VInt 1, VInt 2, VString ''b'', VString ''c'', VInt 3]"
    by simp
  have b: "Builder_AddAll Marshal_sample
          [VString ''a'', VInt 1, VInt 2, VString ''b'', VString ''c'', VInt 3] 0 ?w =
      (let \<sigma>' = Builder_AddAll Marshal_sample (pairs [(''a'', VInt 1)]) 0 ?w
         in if Err (heap \<sigma>' 0) = None
            then set_Err 0 (Some (ArgNotString (2 * length [(''a'', VInt 1)]) (VInt 2))) \<sigma>' else \<sigma>')"
    using t e unfolding p by blast
  have c: "Err (heap (Builder_AddAll Marshal_sample (pairs [(''a'', VInt 1)]) 0 ?w) 0) = None"
    "out (Builder_AddAll Marshal_sample (pairs [(''a'', VInt 1)]) 0 ?w) =
      [CHR ''{'', CHR 0x22, CHR ''a'', CHR 0x22, CHR '':'', CHR ''1'']"
    by (simp_all add: run_defs digits.simps)
  show ?thesis
    unfolding a b using o e c by (simp add: set_Err_def Let_def) (simp add: run_defs)
qed

section \<open>A writer in order on a reliable sink\<close>

















section \<open>The bytes of a sequence of adds\<close>




section \<open>A writer that has an error\<close>

lemma set_simps [simp]:
  "out (set_Err b e \<sigma>) = out \<sigma>" "plan (set_Err b e \<sigma>) = plan \<sigma>"
  "nxt (set_Err b e \<sigma>) = nxt \<sigma>" "wlog (set_Err b e \<sigma>) = wlog \<sigma>"
  "out (set_state b st \<sigma>) = out \<sigma>" "plan (set_state b st \<sigma>) = plan \<sigma>"
  "nxt (set_state b st \<sigma>) = nxt \<sigma>" "wlog (set_state b st \<sigma>) = wlog \<sigma>"
  "out (set_subB b s \<sigma>) = out \<sigma>" "plan (set_subB b s \<sigma>) = plan \<sigma>"
  "nxt (set_subB b s \<sigma>) = nxt \<sigma>" "wlog (set_subB b s \<sigma>) = wlog \<sigma>"
  by (simp_all add: set_Err_def set_state_def set_subB_def)

lemma heap_set_simps [simp]:
  "heap (set_Err b e \<sigma>) a = (if a = b then (heap \<sigma> b)\<lparr>Err := e\<rparr> else heap \<sigma> a)"
  "heap (set_state b st \<sigma>) a = (if a = b then (heap \<sigma> b)\<lparr>state := st\<rparr> else heap \<sigma> a)"
  "heap (set_subB b s \<sigma>) a = (if a = b then (heap \<sigma> b)\<lparr>subB := s\<rparr> else heap \<sigma> a)"
  by (simp_all add: set_Err_def set_state_def set_subB_def)

lemma write_Err: "Err (heap \<sigma> b) \<noteq> None \<Longrightarrow> write x b \<sigma> = \<sigma>"
  by (auto simp: write_def)

lemma checkSub_Err: "Err (heap \<sigma> b) \<noteq> None \<Longrightarrow> checkSub b \<sigma> = (Err (heap \<sigma> b), \<sigma>)"
  by (auto simp: checkSub_def)

lemma heap_write_other: "a \<noteq> b \<Longrightarrow> heap (write x a \<sigma>) b = heap \<sigma> b"
  by (simp add: write_def set_Err_def Write_def split: list.splits outcome.splits)

lemma nxt_write [simp]: "nxt (write x a \<sigma>) = nxt \<sigma>"
  by (simp add: write_def set_Err_def Write_def split: list.splits outcome.splits)

lemma heap_Builder_init_other: "a \<noteq> b \<Longrightarrow> heap (Builder_init a \<sigma>) b = heap \<sigma> b"
  by (simp add: Builder_init_def heap_write_other case_prod_beta)

lemma heap_ListBuilder_init_other: "a \<noteq> b \<Longrightarrow> heap (ListBuilder_init a \<sigma>) b = heap \<sigma> b"
  by (simp add: ListBuilder_init_def heap_write_other case_prod_beta)

lemma alloc_simps [simp]:
  "fst (alloc \<sigma>) = nxt \<sigma>" "nxt (snd (alloc \<sigma>)) = Suc (nxt \<sigma>)"
  "b \<noteq> nxt \<sigma> \<Longrightarrow> heap (snd (alloc \<sigma>)) b = heap \<sigma> b"
  by (simp_all add: alloc_def)

lemma Builder_preadd_Err:
  assumes "Err (heap \<sigma> b) = Some e"
  shows "Builder_preadd M key b \<sigma> =
     (if state (heap \<sigma> b) = closedState
      then (Some (errorString ''Builder mutated after Close()''),
            set_Err b (Some (errorString ''Builder mutated after Close()'')) \<sigma>)
      else (Some e, \<sigma>))"
  using assms by (simp add: Builder_preadd_def checkSub_Err case_prod_beta)

lemma Builder_preadd_closed:
  assumes "state (heap \<sigma> b) = closedState"
  shows "Builder_preadd M key b \<sigma> =
     (Some (errorString ''Builder mutated after Close()''),
      set_Err b (Some (errorString ''Builder mutated after Close()'')) \<sigma>)"
  using assms by (simp add: Builder_preadd_def checkSub_Err case_prod_beta)

lemma ListBuilder_preadd_Err:
  assumes "Err (heap \<sigma> b) = Some e"
  shows "ListBuilder_preadd b \<sigma> =
     (if state (heap \<sigma> b) = closedState
      then (Some (errorString ''ListWriter mutated after Close()''),
            set_Err b (Some (errorString ''ListWriter mutated after Close()'')) \<sigma>)
      else (Some e, \<sigma>))"
  using assms by (simp add: ListBuilder_preadd_def checkSub_Err case_prod_beta)

lemma ListBuilder_preadd_closed:
  assumes "state (heap \<sigma> b) = closedState"
  shows "ListBuilder_preadd b \<sigma> =
     (Some (errorString ''ListWriter mutated after Close()''),
      set_Err b (Some (errorString ''ListWriter mutated after Close()'')) \<sigma>)"
  using assms by (simp add: ListBuilder_preadd_def checkSub_Err case_prod_beta)

text \<open>A child made after a pre-add protocol, whatever the protocol returned.\<close>

lemma Err_after_child:
  assumes "b < nxt \<sigma>" "n = nxt \<sigma>"
  shows "Err (heap (set_subB b s (Builder_init n (snd (alloc \<sigma>)))) b) = Err (heap \<sigma> b)"
    and "Err (heap (set_subB b s (ListBuilder_init n (snd (alloc \<sigma>)))) b) = Err (heap \<sigma> b)"
  using assms
  by (simp_all add: heap_Builder_init_other heap_ListBuilder_init_other)

lemma Builder_call_Err:
  assumes "Err (heap \<sigma> b) = Some e" "b < nxt \<sigma>"
  shows "Err (heap (Builder_call M opn b \<sigma>) b) =
     Some (case Builder_usage_error opn (state (heap \<sigma> b)) of None \<Rightarrow> e | Some u \<Rightarrow> u)"
proof (cases opn)
  case (Add key v)
  then show ?thesis
    using assms by (simp add: Builder_Add_def Builder_preadd_Err case_prod_beta)
next
  case (AddAll args)
  then show ?thesis
    using assms
    by (simp add: Builder_AddAll_def Builder_AddAll_loop_Err set_Err_def odd_iff_mod_2_eq_one)
next
  case (AddObject key)
  then show ?thesis
    using assms
    by (simp add: Builder_AddObject_def Builder_preadd_Err heap_Builder_init_other heap_ListBuilder_init_other case_prod_beta)
next
  case (AddList key)
  then show ?thesis
    using assms
    by (simp add: Builder_AddList_def Builder_preadd_Err heap_Builder_init_other heap_ListBuilder_init_other case_prod_beta)
next
  case (AddObjectFunc key f)
  then show ?thesis
    using assms by (simp add: Builder_AddObjectFunc_def Builder_preadd_Err case_prod_beta)
next
  case (AddListFunc key f)
  then show ?thesis
    using assms by (simp add: Builder_AddListFunc_def Builder_preadd_Err case_prod_beta)
next
  case Close
  then show ?thesis
    using assms by (simp add: Builder_Close_def checkSub_Err case_prod_beta)
qed

lemma ListBuilder_AddAll_Err:
  "Err (heap \<sigma> b) \<noteq> None \<Longrightarrow> ListBuilder_AddAll M args b \<sigma> = \<sigma>"
  by (cases args) auto

lemma ListBuilder_call_Err:
  assumes "Err (heap \<sigma> b) = Some e" "b < nxt \<sigma>"
  shows "Err (heap (ListBuilder_call M opn b \<sigma>) b) =
     Some (case ListBuilder_usage_error opn (state (heap \<sigma> b)) of None \<Rightarrow> e | Some u \<Rightarrow> u)"
proof (cases opn)
  case (LAdd v)
  then show ?thesis
    using assms by (simp add: ListBuilder_Add_def ListBuilder_preadd_Err case_prod_beta)
next
  case (LAddAll args)
  then show ?thesis
    using assms by (simp add: ListBuilder_AddAll_Err)
next
  case LAddObject
  then show ?thesis
    using assms by (simp add: ListBuilder_AddObject_def ListBuilder_preadd_Err case_prod_beta)
next
  case LAddList
  then show ?thesis
    using assms
    by (simp add: ListBuilder_AddList_def ListBuilder_preadd_Err heap_Builder_init_other heap_ListBuilder_init_other case_prod_beta)
next
  case (LAddObjectFunc f)
  then show ?thesis
    using assms by (simp add: ListBuilder_AddObjectFunc_def ListBuilder_preadd_Err case_prod_beta)
next
  case (LAddListFunc f)
  then show ?thesis
    using assms by (simp add: ListBuilder_AddListFunc_def ListBuilder_preadd_Err case_prod_beta)
next
  case LClose
  then show ?thesis
    using assms by (simp add: ListBuilder_Close_def checkSub_Err case_prod_beta)
qed

section \<open>The sticky error\<close>

text \<open>
  Claim C1, as the code has it. Once the error of a writer is set, no operation on the
  writer clears it. The operation leaves the error that was there, except in two cases
  in which it replaces it by its own usage error: every operation but \<open>AddAll\<close> on a
  closed writer (the mutated-after-close error), and \<open>Builder.AddAll\<close> with an odd
  number of arguments.
\<close>

theorem error_kept_or_replaced_by_usage_error:
  assumes "Err (heap \<sigma> b) = Some e" and "b < nxt \<sigma>"
  shows "Err (heap (Builder_call M opn b \<sigma>) b) =
           Some (case Builder_usage_error opn (state (heap \<sigma> b)) of None \<Rightarrow> e | Some u \<Rightarrow> u) \<and>
         Err (heap (ListBuilder_call M lopn b \<sigma>) b) =
           Some (case ListBuilder_usage_error lopn (state (heap \<sigma> b)) of None \<Rightarrow> e | Some u \<Rightarrow> u)"
  using Builder_call_Err [OF assms] ListBuilder_call_Err [OF assms] by simp

theorem error_kept_or_replaced_by_usage_error_witness:
  "Err (heap failed_object 0) = Some (errorString ''disk full'') \<and> 0 < nxt failed_object \<and>
   Err (heap (Builder_Add Marshal_sample ''k'' (VInt 1) 0 failed_object) 0) =
     Some (errorString ''disk full'') \<and>
   Err (heap (Builder_Close 0 failed_object) 0) = Some (errorString ''disk full'') \<and>
   Err (heap (Builder_AddAll Marshal_sample [VInt 1] 0 failed_object) 0) =
     Some (errorString ''AddAll takes an even number of args'') \<and>
   Err (heap failed_list 0) = Some (errorString ''disk full'') \<and> 0 < nxt failed_list \<and>
   Err (heap (ListBuilder_Add Marshal_sample (VInt 1) 0 failed_list) 0) =
     Some (errorString ''disk full'') \<and>
   Err (heap (ListBuilder_Close 0 failed_list) 0) = Some (errorString ''disk full'')"
proof -
  have b: "Err (heap failed_object 0) = Some (errorString ''disk full'')" "0 < nxt failed_object"
    "state (heap failed_object 0) = startState"
    by (simp_all add: failed_object_def run_defs)
  have l: "Err (heap failed_list 0) = Some (errorString ''disk full'')" "0 < nxt failed_list"
    "state (heap failed_list 0) = startState"
    by (simp_all add: failed_list_def run_defs)
  note tb = error_kept_or_replaced_by_usage_error [OF b(1,2), of Marshal_sample]
  note tl = error_kept_or_replaced_by_usage_error [OF l(1,2), of Marshal_sample]
  show ?thesis
    using b l tb [of "Add ''k'' (VInt 1)"] tb [of Close] tb [of "AddAll [VInt 1]"]
      tl [of _ "LAdd (VInt 1)"] tl [of _ LClose]
    by simp
qed

text \<open>
  The first error does not always win: after \<open>NewBuilder, Close, Close\<close> the error is the one
  of the second \<open>Close\<close>, and a following \<open>Add\<close> replaces it by its own.
\<close>

theorem first_error_replaced_counterexample:
  "Err (heap (Builder_Close 0 closed_object) 0) =
     Some (errorString ''ListBuilder mutated after Close()'') \<and>
   Err (heap (Builder_Add Marshal_sample ''k'' (VInt 1) 0 (Builder_Close 0 closed_object)) 0) =
     Some (errorString ''Builder mutated after Close()'') \<and>
   Err (heap (Builder_Add Marshal_sample ''k'' (VInt 1) 0 (Builder_Close 0 closed_object)) 0) \<noteq>
     Err (heap (Builder_Close 0 closed_object) 0)"
  by (simp add: run_defs)

section \<open>A child that is not closed\<close>

text \<open>
  Claim C2, at the input \<open>l := NewListBuilder(w); l.AddObject(); l.Add(1)\<close>.
  \<open>ListBuilder.AddObject\<close> returns a child and does not record it in \<open>subB\<close>, so the
  \<open>Add\<close> on the parent, with the child still open, writes on and leaves the parent
  with a nil error, and so does \<open>Close\<close>. The same steps through
  \<open>ListBuilder.AddList\<close> and through \<open>Builder.AddObject\<close> end with the error
  "A sub-Builder was not closed" on the parent.
\<close>

theorem ListBuilder_AddObject_child_not_tracked:
  "fst (ListBuilder_AddObject 0 (snd (NewListBuilder (fresh [])))) = Some 1 \<and>
   state (heap list_with_open_object 1) \<noteq> closedState \<and>
   subB (heap list_with_open_object 0) = None \<and>
   Err (heap (ListBuilder_Add Marshal_sample (VInt 1) 0 list_with_open_object) 0) = None \<and>
   out (ListBuilder_Add Marshal_sample (VInt 1) 0 list_with_open_object) = ''[{,1'' \<and>
   Err (heap (ListBuilder_Close 0 list_with_open_object) 0) = None \<and>
   subB (heap list_with_open_list 0) = Some 1 \<and>
   Err (heap (ListBuilder_Add Marshal_sample (VInt 1) 0 list_with_open_list) 0) =
     Some (errorString ''A sub-Builder was not closed'') \<and>
   Err (heap (Builder_Add Marshal_sample ''4'' (VInt 4) 0 object_with_open_object) 0) =
     Some (errorString ''A sub-Builder was not closed'')"
  by (simp add: list_with_open_object_def list_with_open_list_def object_with_open_object_def
      run_defs digits.simps)

section \<open>Bytes written after an error\<close>

text \<open>
  Claim C3, at two inputs. On a closed \<open>Builder\<close> the pre-add protocol of
  \<open>AddObject("k")\<close> sets the error, and the call still appends the opening delimiter of
  the child; so do \<open>Builder.AddList\<close> and \<open>ListBuilder.AddList\<close>, whereas
  \<open>ListBuilder.AddObject\<close> appends nothing. And when the sink rejects the comma of the
  second entry, \<open>write\<close> sets the error, yet \<open>Builder.preadd\<close> encodes the key and
  writes the colon, and returns nil.
\<close>

theorem bytes_appended_after_error:
  "out closed_object = ''{}'' \<and>
   fst (Builder_preadd Marshal_sample ''k'' 0 closed_object) =
     Some (errorString ''Builder mutated after Close()'') \<and>
   out (snd (Builder_AddObject Marshal_sample ''k'' 0 closed_object)) = ''{}{'' \<and>
   out (snd (Builder_AddList Marshal_sample ''k'' 0 closed_object)) = ''{}['' \<and>
   out closed_list = ''[]'' \<and>
   out (snd (ListBuilder_AddList 0 closed_list)) = ''[]['' \<and>
   out (snd (ListBuilder_AddObject 0 closed_list)) = ''[]'' \<and>
   out flaky_object = [CHR ''{'', CHR 0x22, CHR ''a'', CHR 0x22, CHR '':'', CHR ''1''] \<and>
   plan flaky_object = [Reject 0 (errorString ''timeout'')] \<and>
   Err (heap (write '','' 0 flaky_object) 0) = Some (errorString ''timeout'') \<and>
   out (snd (Builder_preadd Marshal_sample ''b'' 0 flaky_object)) =
     [CHR ''{'', CHR 0x22, CHR ''a'', CHR 0x22, CHR '':'', CHR ''1'',
      CHR 0x22, CHR ''b'', CHR 0x22, CHR '':''] \<and>
   fst (Builder_preadd Marshal_sample ''b'' 0 flaky_object) = None"
  by (simp add: flaky_object_def run_defs digits.simps)

section \<open>A child built by a function\<close>

text \<open>
  Claim C7, at two inputs. With the function that adds \<open>"baz": 7\<close>,
  \<open>NewBuilder(w).AddObjectFunc("foo", f).Close()\<close> emits \<open>{"foo":{"baz":7}}\<close>. With a
  function that leaves a child of its writer open and returns nil, \<open>AddObjectFunc\<close>
  reads the error of the child before it closes it: the \<open>Close\<close> of the child sets
  "A sub-Builder was not closed" on the child and writes no closing delimiter, while the
  parent keeps a nil error, also after its own \<open>Close\<close>.
\<close>

theorem AddObjectFunc_drops_error_of_Close:
  "out (Builder_Close 0 (Builder_AddObjectFunc Marshal_sample ''foo'' adds_baz 0
          (snd (NewBuilder (fresh []))))) =
     [CHR ''{'', CHR 0x22, CHR ''f'', CHR ''o'', CHR ''o'', CHR 0x22, CHR '':'',
      CHR ''{'', CHR 0x22, CHR ''b'', CHR ''a'', CHR ''z'', CHR 0x22, CHR '':'', CHR ''7'',
      CHR ''}'', CHR ''}''] \<and>
   Err (heap object_via_open 1) = Some (errorString ''A sub-Builder was not closed'') \<and>
   Err (heap object_via_open 0) = None \<and>
   Err (heap (Builder_Close 0 object_via_open) 0) = None \<and>
   out (Builder_Close 0 object_via_open) =
     [CHR ''{'', CHR 0x22, CHR ''f'', CHR ''o'', CHR ''o'', CHR 0x22, CHR '':'',
      CHR ''{'', CHR 0x22, CHR ''x'', CHR 0x22, CHR '':'', CHR ''{'', CHR ''}'']"
  by (simp add: object_via_open_def leaves_child_open_def adds_baz_def run_defs digits.simps)

section \<open>Steps that leave a writer alone\<close>

lemma Write_frame [simp]:
  "heap (snd (Write x \<sigma>)) = heap \<sigma>" "nxt (snd (Write x \<sigma>)) = nxt \<sigma>"
  "wlog (snd (Write x \<sigma>)) = wlog \<sigma>"
  by (simp_all add: Write_def split: list.splits outcome.splits)

lemma encode_frame [simp]:
  "heap (snd (encode M v \<sigma>)) = heap \<sigma>" "nxt (snd (encode M v \<sigma>)) = nxt \<sigma>"
  "wlog (snd (encode M v \<sigma>)) = wlog \<sigma>"
  by (simp_all add: encode_def split: sum.splits)

lemma write_frame:
  "state (heap (write x a \<sigma>) c) = state (heap \<sigma> c)"
  "subB (heap (write x a \<sigma>) c) = subB (heap \<sigma> c)"
  "wlog (write x a \<sigma>) = (if Err (heap \<sigma> a) = None then wlog \<sigma> @ [(a, x)] else wlog \<sigma>)"
  by (simp_all add: write_def case_prod_beta)

lemma wrote_simps [simp]:
  "wrote b (set_Err a e \<sigma>) = wrote b \<sigma>" "wrote b (set_state a st \<sigma>) = wrote b \<sigma>"
  "wrote b (set_subB a s \<sigma>) = wrote b \<sigma>" "wrote b (snd (Write x \<sigma>)) = wrote b \<sigma>"
  "wrote b (snd (encode M v \<sigma>)) = wrote b \<sigma>" "wrote b (snd (alloc \<sigma>)) = wrote b \<sigma>"
  by (simp_all add: wrote_def alloc_def)

lemma wrote_write:
  "wrote b (write x a \<sigma>) =
     (if a = b \<and> Err (heap \<sigma> a) = None then wrote b \<sigma> @ [x] else wrote b \<sigma>)"
  by (simp add: wrote_def write_frame)

lemma quiet_refl [simp]: "quiet b \<sigma> \<sigma>"
  by (simp add: quiet_def)

lemma quiet_trans: "quiet b \<sigma> \<sigma>' \<Longrightarrow> quiet b \<sigma>' \<sigma>'' \<Longrightarrow> quiet b \<sigma> \<sigma>''"
  by (fastforce simp: quiet_def)

lemma quiet_nxt: "quiet b \<sigma> \<sigma>' \<Longrightarrow> b < nxt \<sigma> \<Longrightarrow> b < nxt \<sigma>'"
  by (simp add: quiet_def)

lemma quiet_set_Err: "quiet b \<sigma> \<sigma>' \<Longrightarrow> quiet b \<sigma> (set_Err a e \<sigma>')"
  by (auto simp: quiet_def)

lemma quiet_set_subB: "quiet b \<sigma> \<sigma>' \<Longrightarrow> quiet b \<sigma> (set_subB a s \<sigma>')"
  by (auto simp: quiet_def)

lemma quiet_set_state_open:
  "quiet b \<sigma> \<sigma>' \<Longrightarrow> state (heap \<sigma>' a) \<noteq> closedState \<Longrightarrow>
   quiet b \<sigma> (set_state a openedState \<sigma>')"
  by (auto simp: quiet_def)

lemma quiet_set_state_other:
  "quiet b \<sigma> \<sigma>' \<Longrightarrow> a \<noteq> b \<Longrightarrow> quiet b \<sigma> (set_state a st \<sigma>')"
  by (auto simp: quiet_def)

lemma quiet_encode: "quiet b \<sigma> \<sigma>' \<Longrightarrow> quiet b \<sigma> (snd (encode M v \<sigma>'))"
  by (auto simp: quiet_def)

lemma quiet_write_sep:
  "quiet b \<sigma> \<sigma>' \<Longrightarrow> x = '','' \<or> x = '':'' \<Longrightarrow> quiet b \<sigma> (write x a \<sigma>')"
  by (auto simp: quiet_def wrote_write write_frame)

lemma quiet_write_other: "quiet b \<sigma> \<sigma>' \<Longrightarrow> a \<noteq> b \<Longrightarrow> quiet b \<sigma> (write x a \<sigma>')"
  by (auto simp: quiet_def wrote_write write_frame)

lemma quiet_checkSub: "quiet b \<sigma> \<sigma>' \<Longrightarrow> quiet b \<sigma> (snd (checkSub a \<sigma>'))"
  by (auto simp: checkSub_def Let_def quiet_set_Err quiet_set_subB split: option.splits)

lemma quiet_alloc: "quiet b \<sigma> \<sigma>' \<Longrightarrow> b < nxt \<sigma> \<Longrightarrow> quiet b \<sigma> (snd (alloc \<sigma>'))"
  by (auto simp: quiet_def)

lemma quiet_Builder_init: "quiet b \<sigma> \<sigma>' \<Longrightarrow> a \<noteq> b \<Longrightarrow> quiet b \<sigma> (Builder_init a \<sigma>')"
  by (simp add: Builder_init_def quiet_write_other quiet_set_Err)

lemma quiet_ListBuilder_init:
  "quiet b \<sigma> \<sigma>' \<Longrightarrow> a \<noteq> b \<Longrightarrow> quiet b \<sigma> (ListBuilder_init a \<sigma>')"
  by (simp add: ListBuilder_init_def quiet_write_other quiet_set_Err)


lemma quiet_separator:
  "quiet b \<sigma> \<sigma>' \<Longrightarrow> state (heap \<sigma>' a) \<noteq> closedState \<Longrightarrow>
   quiet b \<sigma> (if state (heap \<sigma>' a) = startState then set_state a openedState \<sigma>'
              else write '','' a \<sigma>')"
  by (simp add: quiet_set_state_open quiet_write_sep)

lemma checkSub_state [simp]: "state (heap (snd (checkSub a \<sigma>)) c) = state (heap \<sigma> c)"
  by (simp add: checkSub_def Let_def split: option.splits)

lemma checkSub_closed_fails:
  "state (heap \<sigma> a) = closedState \<Longrightarrow> Err (heap \<sigma> a) \<noteq> None \<Longrightarrow>
   fst (checkSub a \<sigma>) \<noteq> None"
  by (simp add: checkSub_Err)

lemma quiet_Builder_preadd:
  assumes "quiet b \<sigma> \<sigma>'"
  shows "quiet b \<sigma> (snd (Builder_preadd M key a \<sigma>'))"
proof (cases "state (heap \<sigma>' a) = closedState")
  case True
  then show ?thesis
    using assms by (simp add: Builder_preadd_closed quiet_set_Err)
next
  case False
  let ?c = "snd (checkSub a \<sigma>')"
  have q: "quiet b \<sigma> ?c" using assms by (rule quiet_checkSub)
  have n: "state (heap ?c a) \<noteq> closedState" using False by simp
  show ?thesis
    using False q quiet_separator [OF q n]
    by (simp add: Builder_preadd_def case_prod_beta Let_def quiet_write_sep quiet_set_Err
        quiet_encode)
qed

lemma quiet_ListBuilder_preadd:
  assumes "quiet b \<sigma> \<sigma>'"
  shows "quiet b \<sigma> (snd (ListBuilder_preadd a \<sigma>'))"
proof (cases "state (heap \<sigma>' a) = closedState")
  case True
  then show ?thesis
    using assms by (simp add: ListBuilder_preadd_closed quiet_set_Err)
next
  case False
  let ?c = "snd (checkSub a \<sigma>')"
  have q: "quiet b \<sigma> ?c" using assms by (rule quiet_checkSub)
  have n: "state (heap ?c a) \<noteq> closedState" using False by simp
  show ?thesis
    using False q quiet_separator [OF q n]
    by (simp add: ListBuilder_preadd_def case_prod_beta Let_def)
qed

lemma quiet_Builder_Add:
  "quiet b \<sigma> \<sigma>' \<Longrightarrow> quiet b \<sigma> (Builder_Add M key v a \<sigma>')"
  by (simp add: Builder_Add_def case_prod_beta quiet_Builder_preadd quiet_encode quiet_set_Err)

lemma quiet_ListBuilder_Add:
  "quiet b \<sigma> \<sigma>' \<Longrightarrow> quiet b \<sigma> (ListBuilder_Add M v a \<sigma>')"
  by (simp add: ListBuilder_Add_def case_prod_beta quiet_ListBuilder_preadd quiet_encode
      quiet_set_Err)

lemma quiet_Builder_AddAll_loop:
  "quiet b \<sigma> \<sigma>' \<Longrightarrow> quiet b \<sigma> (Builder_AddAll_loop M i args a \<sigma>')"
proof (induction M i args a \<sigma>' rule: Builder_AddAll_loop.induct)
  case (1 M i k v rest a \<sigma>')
  then show ?case
    by (cases k) (simp_all add: quiet_Builder_Add quiet_set_Err)
qed simp_all

lemma quiet_Builder_AddAll:
  "quiet b \<sigma> \<sigma>' \<Longrightarrow> quiet b \<sigma> (Builder_AddAll M args a \<sigma>')"
  by (simp add: Builder_AddAll_def quiet_Builder_AddAll_loop quiet_set_Err)

lemma quiet_ListBuilder_AddAll:
  "quiet b \<sigma> \<sigma>' \<Longrightarrow> quiet b \<sigma> (ListBuilder_AddAll M args a \<sigma>')"
  by (induction args arbitrary: \<sigma>') (simp_all add: quiet_ListBuilder_Add)

lemma quiet_Builder_Close_other:
  "quiet b \<sigma> \<sigma>' \<Longrightarrow> a \<noteq> b \<Longrightarrow> quiet b \<sigma> (Builder_Close a \<sigma>')"
  by (simp add: Builder_Close_def case_prod_beta quiet_set_Err quiet_checkSub
      quiet_set_state_other quiet_write_other)

lemma quiet_ListBuilder_Close_other:
  "quiet b \<sigma> \<sigma>' \<Longrightarrow> a \<noteq> b \<Longrightarrow> quiet b \<sigma> (ListBuilder_Close a \<sigma>')"
  by (simp add: ListBuilder_Close_def case_prod_beta quiet_set_Err quiet_checkSub
      quiet_set_state_other quiet_write_other)

text \<open>The child that a constructor allocates and opens.\<close>

lemma quiet_child:
  assumes "quiet b \<sigma> \<sigma>'" "b < nxt \<sigma>"
  shows "quiet b \<sigma> (Builder_init (nxt \<sigma>') (snd (alloc \<sigma>')))"
    and "quiet b \<sigma> (ListBuilder_init (nxt \<sigma>') (snd (alloc \<sigma>')))"
    and "nxt \<sigma>' \<noteq> b"
proof -
  show n: "nxt \<sigma>' \<noteq> b"
    using quiet_nxt [OF assms] by simp
  show "quiet b \<sigma> (Builder_init (nxt \<sigma>') (snd (alloc \<sigma>')))"
    using quiet_alloc [OF assms] n by (rule quiet_Builder_init)
  show "quiet b \<sigma> (ListBuilder_init (nxt \<sigma>') (snd (alloc \<sigma>')))"
    using quiet_alloc [OF assms] n by (rule quiet_ListBuilder_init)
qed

lemma quiet_constructors:
  assumes "quiet b \<sigma> \<sigma>'" "b < nxt \<sigma>"
  shows "quiet b \<sigma> (snd (Builder_AddObject M key a \<sigma>'))"
    and "quiet b \<sigma> (snd (Builder_AddList M key a \<sigma>'))"
    and "quiet b \<sigma> (snd (ListBuilder_AddObject a \<sigma>'))"
    and "quiet b \<sigma> (snd (ListBuilder_AddList a \<sigma>'))"
proof -
  note p = quiet_Builder_preadd [OF assms(1), of M key a]
  note l = quiet_ListBuilder_preadd [OF assms(1), of a]
  show "quiet b \<sigma> (snd (Builder_AddObject M key a \<sigma>'))"
    using quiet_child(1) [OF p assms(2)]
    by (simp add: Builder_AddObject_def case_prod_beta quiet_set_subB)
  show "quiet b \<sigma> (snd (Builder_AddList M key a \<sigma>'))"
    using quiet_child(2) [OF p assms(2)]
    by (simp add: Builder_AddList_def case_prod_beta quiet_set_subB)
  show "quiet b \<sigma> (snd (ListBuilder_AddObject a \<sigma>'))"
    using quiet_child(1) [OF l assms(2)] l
    by (simp add: ListBuilder_AddObject_def case_prod_beta)
  show "quiet b \<sigma> (snd (ListBuilder_AddList a \<sigma>'))"
    using quiet_child(2) [OF l assms(2)]
    by (simp add: ListBuilder_AddList_def case_prod_beta quiet_set_subB)
qed

text \<open>
  The part of the four \<open>...Func\<close> methods after the pre-add protocol, for either kind of
  child: \<open>ini\<close> opens it and \<open>cls\<close> closes it.
\<close>

lemma quiet_if: "quiet b \<sigma> x \<Longrightarrow> quiet b \<sigma> y \<Longrightarrow> quiet b \<sigma> (if c then x else y)"
  by simp

lemma quiet_scoped:
  assumes "quiet b \<sigma> \<sigma>1" "b < nxt \<sigma>" "\<forall>s. s \<noteq> b \<longrightarrow> apart b (\<lambda>\<sigma>. snd (f s \<sigma>))"
    and ini: "\<And>\<tau>. quiet b \<sigma> \<tau> \<Longrightarrow> quiet b \<sigma> (ini (nxt \<sigma>1) \<tau>)"
    and cls: "\<And>\<tau>. quiet b \<sigma> \<tau> \<Longrightarrow> quiet b \<sigma> (cls (nxt \<sigma>1) \<tau>)"
  shows "quiet b \<sigma>
     (let p = alloc \<sigma>1;
          \<sigma>3 = ini (fst p) (snd p);
          q = f (fst p) \<sigma>3;
          \<sigma>5 = set_Err a (fst q) (snd q);
          \<sigma>6 = (if Err (heap \<sigma>5 a) = None then set_Err a (Err (heap \<sigma>5 (fst p))) \<sigma>5 else \<sigma>5)
      in cls (fst p) \<sigma>6)"
proof -
  define s where "s = fst (alloc \<sigma>1)"
  define \<sigma>3 where "\<sigma>3 = ini s (snd (alloc \<sigma>1))"
  define \<sigma>5 where "\<sigma>5 = set_Err a (fst (f s \<sigma>3)) (snd (f s \<sigma>3))"
  define \<sigma>6 where
    "\<sigma>6 = (if Err (heap \<sigma>5 a) = None then set_Err a (Err (heap \<sigma>5 s)) \<sigma>5 else \<sigma>5)"
  have n: "s = nxt \<sigma>1"
    by (simp add: s_def)
  have s: "s \<noteq> b"
    using quiet_nxt [OF assms(1,2)] by (simp add: n)
  have q3: "quiet b \<sigma> \<sigma>3"
    unfolding \<sigma>3_def n by (rule ini [OF quiet_alloc [OF assms(1,2)]])
  have "quiet b \<sigma>3 (snd (f s \<sigma>3))"
    using assms(3) s quiet_nxt [OF q3 assms(2)] by (simp add: apart_def)
  then have "quiet b \<sigma> (snd (f s \<sigma>3))"
    using q3 quiet_trans by blast
  then have q5: "quiet b \<sigma> \<sigma>5"
    unfolding \<sigma>5_def by (rule quiet_set_Err)
  have "quiet b \<sigma> \<sigma>6"
    unfolding \<sigma>6_def using q5 by (simp add: quiet_set_Err)
  then have "quiet b \<sigma> (cls s \<sigma>6)"
    unfolding n by (rule cls)
  then show ?thesis
    unfolding Let_def \<sigma>6_def \<sigma>5_def \<sigma>3_def s_def .
qed

lemma quiet_Func:
  assumes "quiet b \<sigma> \<sigma>'" "b < nxt \<sigma>" "\<forall>s. s \<noteq> b \<longrightarrow> apart b (\<lambda>\<sigma>. snd (f s \<sigma>))"
  shows "quiet b \<sigma> (Builder_AddObjectFunc M key f a \<sigma>')"
    and "quiet b \<sigma> (Builder_AddListFunc M key f a \<sigma>')"
    and "quiet b \<sigma> (ListBuilder_AddObjectFunc f a \<sigma>')"
    and "quiet b \<sigma> (ListBuilder_AddListFunc f a \<sigma>')"
proof -
  note p = quiet_Builder_preadd [OF assms(1), of M key a]
  note l = quiet_ListBuilder_preadd [OF assms(1), of a]
  note np = quiet_child(3) [OF p assms(2)]
  note nl = quiet_child(3) [OF l assms(2)]
  show "quiet b \<sigma> (Builder_AddObjectFunc M key f a \<sigma>')"
    unfolding Builder_AddObjectFunc_def
    using p quiet_scoped [OF p assms(2,3), of Builder_init Builder_Close a] np
    by (simp only: case_prod_beta Let_def quiet_Builder_init quiet_Builder_Close_other
        simp_thms if_True if_False split: if_split)
  show "quiet b \<sigma> (Builder_AddListFunc M key f a \<sigma>')"
    unfolding Builder_AddListFunc_def
    using p quiet_scoped [OF p assms(2,3), of ListBuilder_init ListBuilder_Close a] np
    by (simp only: case_prod_beta Let_def quiet_ListBuilder_init quiet_ListBuilder_Close_other
        simp_thms if_True if_False split: if_split)
  show "quiet b \<sigma> (ListBuilder_AddObjectFunc f a \<sigma>')"
    unfolding ListBuilder_AddObjectFunc_def
    using l quiet_scoped [OF l assms(2,3), of Builder_init Builder_Close a] nl
    by (simp only: case_prod_beta Let_def quiet_Builder_init quiet_Builder_Close_other
        simp_thms if_True if_False split: if_split)
  show "quiet b \<sigma> (ListBuilder_AddListFunc f a \<sigma>')"
    unfolding ListBuilder_AddListFunc_def
    using l quiet_scoped [OF l assms(2,3), of ListBuilder_init ListBuilder_Close a] nl
    by (simp only: case_prod_beta Let_def quiet_ListBuilder_init quiet_ListBuilder_Close_other
        simp_thms if_True if_False split: if_split)
qed

lemma quiet_Builder_call:
  assumes "quiet b \<sigma> \<sigma>'" "b < nxt \<sigma>" "callback_apart b opn" "a = b \<longrightarrow> opn \<noteq> Close"
  shows "quiet b \<sigma> (Builder_call M opn a \<sigma>')"
proof (cases opn)
  case (Add key v)
  then show ?thesis using assms(1) by (simp add: quiet_Builder_Add)
next
  case (AddAll args)
  then show ?thesis using assms(1) by (simp add: quiet_Builder_AddAll)
next
  case (AddObject key)
  then show ?thesis using quiet_constructors(1) [OF assms(1,2)] by simp
next
  case (AddList key)
  then show ?thesis using quiet_constructors(2) [OF assms(1,2)] by simp
next
  case (AddObjectFunc key f)
  then show ?thesis using quiet_Func(1) [OF assms(1,2)] assms(3) by simp
next
  case (AddListFunc key f)
  then show ?thesis using quiet_Func(2) [OF assms(1,2)] assms(3) by simp
next
  case Close
  then show ?thesis using assms(1,4) by (simp add: quiet_Builder_Close_other)
qed

lemma quiet_ListBuilder_call:
  assumes "quiet b \<sigma> \<sigma>'" "b < nxt \<sigma>" "list_callback_apart b opn" "a = b \<longrightarrow> opn \<noteq> LClose"
  shows "quiet b \<sigma> (ListBuilder_call M opn a \<sigma>')"
proof (cases opn)
  case (LAdd v)
  then show ?thesis using assms(1) by (simp add: quiet_ListBuilder_Add)
next
  case (LAddAll args)
  then show ?thesis using assms(1) by (simp add: quiet_ListBuilder_AddAll)
next
  case LAddObject
  then show ?thesis using quiet_constructors(3) [OF assms(1,2)] by simp
next
  case LAddList
  then show ?thesis using quiet_constructors(4) [OF assms(1,2)] by simp
next
  case (LAddObjectFunc f)
  then show ?thesis using quiet_Func(3) [OF assms(1,2)] assms(3) by simp
next
  case (LAddListFunc f)
  then show ?thesis using quiet_Func(4) [OF assms(1,2)] assms(3) by simp
next
  case LClose
  then show ?thesis using assms(1,4) by (simp add: quiet_ListBuilder_Close_other)
qed

lemma count_list_separators:
  "set ws \<subseteq> {'','', '':''} \<Longrightarrow> x \<noteq> '','' \<Longrightarrow> x \<noteq> '':'' \<Longrightarrow> count_list ws x = 0"
  by (induction ws) auto

lemma delimiters_quiet:
  assumes "delimiters l r b \<sigma>" "quiet b \<sigma> \<sigma>'" "l \<noteq> '',''" "l \<noteq> '':''" "r \<noteq> '',''" "r \<noteq> '':''"
  shows "delimiters l r b \<sigma>'"
proof -
  obtain ws where w: "wrote b \<sigma>' = wrote b \<sigma> @ ws" "set ws \<subseteq> {'','', '':''}"
    using assms(2) by (auto simp: quiet_def)
  have "count_list ws l = 0" "count_list ws r = 0"
    using w(2) assms(3-6) by (simp_all add: count_list_separators)
  then show ?thesis
    using assms(1,2) w(1) by (auto simp: delimiters_def quiet_def)
qed

lemma delimiters_Builder_Close:
  assumes "delimiters ''{'' ''}'' b \<sigma>"
  shows "delimiters ''{'' ''}'' b (Builder_Close b \<sigma>)"
proof (cases "state (heap \<sigma> b) = closedState \<or> fst (checkSub b \<sigma>) \<noteq> None")
  case True
  have "quiet b \<sigma> (Builder_Close b \<sigma>)"
    using True by (auto simp: Builder_Close_def case_prod_beta quiet_set_Err quiet_checkSub)
  then show ?thesis
    using assms by (simp add: delimiters_quiet)
next
  case False
  let ?c = "snd (checkSub b \<sigma>)"
  have e: "Err (heap ?c b) = None"
    using False by (auto simp: checkSub_def Let_def split: option.splits if_splits)
  have w: "wrote b ?c = wrote b \<sigma>" "nxt ?c = nxt \<sigma>"
    using quiet_checkSub [OF quiet_refl, of b \<sigma> b]
    by (auto simp: checkSub_def Let_def wrote_def split: option.splits)
  show ?thesis
    using False assms e w
    by (simp add: Builder_Close_def case_prod_beta delimiters_def wrote_write write_frame)
qed

lemma delimiters_ListBuilder_Close:
  assumes "delimiters ''['' '']'' b \<sigma>"
  shows "delimiters ''['' '']'' b (ListBuilder_Close b \<sigma>)"
proof (cases "state (heap \<sigma> b) = closedState \<or> fst (checkSub b \<sigma>) \<noteq> None")
  case True
  have "quiet b \<sigma> (ListBuilder_Close b \<sigma>)"
    using True by (auto simp: ListBuilder_Close_def case_prod_beta quiet_set_Err quiet_checkSub)
  then show ?thesis
    using assms by (simp add: delimiters_quiet)
next
  case False
  let ?c = "snd (checkSub b \<sigma>)"
  have e: "Err (heap ?c b) = None"
    using False by (auto simp: checkSub_def Let_def split: option.splits if_splits)
  have w: "wrote b ?c = wrote b \<sigma>" "nxt ?c = nxt \<sigma>"
    by (auto simp: checkSub_def Let_def wrote_def split: option.splits)
  show ?thesis
    using False assms e w
    by (simp add: ListBuilder_Close_def case_prod_beta delimiters_def wrote_write write_frame)
qed

lemma alloc_new [simp]:
  "heap (snd (alloc \<sigma>)) (nxt \<sigma>) = \<lparr>state = startState, subB = None, Err = None\<rparr>"
  by (simp add: alloc_def)

lemma delimiters_new:
  assumes "wrote (nxt \<sigma>) \<sigma> = []"
  shows "delimiters ''{'' ''}'' (fst (NewBuilder \<sigma>)) (snd (NewBuilder \<sigma>))"
    and "delimiters ''['' '']'' (fst (NewListBuilder \<sigma>)) (snd (NewListBuilder \<sigma>))"
  using assms
  by (simp_all add: NewBuilder_def NewListBuilder_def Builder_init_def ListBuilder_init_def
      case_prod_beta delimiters_def wrote_write write_frame)

lemma Builder_lifetime_delimiters:
  "Builder_lifetime M b \<sigma> \<Longrightarrow> delimiters ''{'' ''}'' b \<sigma>"
proof (induction rule: Builder_lifetime.induct)
  case (new \<sigma>)
  then show ?case by (simp add: delimiters_new)
next
  case (call \<sigma> opn)
  show ?case
  proof (cases "opn = Close")
    case True
    then show ?thesis using call.IH by (simp add: delimiters_Builder_Close)
  next
    case False
    have "b < nxt \<sigma>" using call.IH by (simp add: delimiters_def)
    then have "quiet b \<sigma> (Builder_call M opn b \<sigma>)"
      using call.hyps(2) False by (simp add: quiet_Builder_call)
    then show ?thesis using call.IH by (simp add: delimiters_quiet)
  qed
next
  case (other \<sigma> g)
  have "b < nxt \<sigma>" using other.IH by (simp add: delimiters_def)
  then have "quiet b \<sigma> (g \<sigma>)" using other.hyps(2) by (simp add: apart_def)
  then show ?case using other.IH by (simp add: delimiters_quiet)
qed

lemma ListBuilder_lifetime_delimiters:
  "ListBuilder_lifetime M b \<sigma> \<Longrightarrow> delimiters ''['' '']'' b \<sigma>"
proof (induction rule: ListBuilder_lifetime.induct)
  case (new \<sigma>)
  then show ?case by (simp add: delimiters_new)
next
  case (call \<sigma> opn)
  show ?case
  proof (cases "opn = LClose")
    case True
    then show ?thesis using call.IH by (simp add: delimiters_ListBuilder_Close)
  next
    case False
    have "b < nxt \<sigma>" using call.IH by (simp add: delimiters_def)
    then have "quiet b \<sigma> (ListBuilder_call M opn b \<sigma>)"
      using call.hyps(2) False by (simp add: quiet_ListBuilder_call)
    then show ?thesis using call.IH by (simp add: delimiters_quiet)
  qed
next
  case (other \<sigma> g)
  have "b < nxt \<sigma>" using other.IH by (simp add: delimiters_def)
  then have "quiet b \<sigma> (g \<sigma>)" using other.hyps(2) by (simp add: apart_def)
  then show ?case using other.IH by (simp add: delimiters_quiet)
qed


lemma wrote_init_other:
  "a \<noteq> b \<Longrightarrow> wrote b (Builder_init a \<sigma>) = wrote b \<sigma>"
  "a \<noteq> b \<Longrightarrow> wrote b (ListBuilder_init a \<sigma>) = wrote b \<sigma>"
  by (simp_all add: Builder_init_def ListBuilder_init_def wrote_write)

lemma Builder_AddAll_closed:
  assumes "state (heap \<sigma> b) = closedState"
  shows "wrote b (Builder_AddAll M args b \<sigma>) = wrote b \<sigma>"
    and "state (heap (Builder_AddAll M args b \<sigma>) b) = closedState"
proof -
  have l: "wrote b (Builder_AddAll_loop M i args b \<sigma>) = wrote b \<sigma> \<and>
      state (heap (Builder_AddAll_loop M i args b \<sigma>) b) = closedState" for i
  proof (cases "(M, i, args, b, \<sigma>)" rule: Builder_AddAll_loop.cases)
    case (1 M' i' k v rest b' \<sigma>')
    then show ?thesis
      using assms
      by (cases k)
        (simp_all add: Builder_Add_def Builder_preadd_closed Builder_AddAll_loop_Err)
  qed (use assms in simp_all)
  show "wrote b (Builder_AddAll M args b \<sigma>) = wrote b \<sigma>"
    and "state (heap (Builder_AddAll M args b \<sigma>) b) = closedState"
    using assms l [of 0] by (simp_all add: Builder_AddAll_def)
qed

lemma ListBuilder_AddAll_closed:
  assumes "state (heap \<sigma> b) = closedState"
  shows "wrote b (ListBuilder_AddAll M args b \<sigma>) = wrote b \<sigma>"
    and "state (heap (ListBuilder_AddAll M args b \<sigma>) b) = closedState"
proof -
  show "wrote b (ListBuilder_AddAll M args b \<sigma>) = wrote b \<sigma>"
    using assms
    by (cases args)
      (simp_all add: ListBuilder_Add_def ListBuilder_preadd_closed ListBuilder_AddAll_Err)
  show "state (heap (ListBuilder_AddAll M args b \<sigma>) b) = closedState"
    using assms
    by (cases args)
      (simp_all add: ListBuilder_Add_def ListBuilder_preadd_closed ListBuilder_AddAll_Err)
qed

lemmas closed_defs =
  Builder_Add_def Builder_AddObject_def Builder_AddList_def Builder_AddObjectFunc_def
  Builder_AddListFunc_def Builder_Close_def Builder_preadd_closed Builder_AddAll_closed
  ListBuilder_Add_def ListBuilder_AddObject_def ListBuilder_AddList_def
  ListBuilder_AddObjectFunc_def ListBuilder_AddListFunc_def ListBuilder_Close_def
  ListBuilder_preadd_closed ListBuilder_AddAll_closed wrote_init_other
  heap_Builder_init_other heap_ListBuilder_init_other case_prod_beta

lemma Builder_call_closed:
  assumes "state (heap \<sigma> b) = closedState" "b < nxt \<sigma>"
  shows "wrote b (Builder_call M opn b \<sigma>) = wrote b \<sigma>"
    and "state (heap (Builder_call M opn b \<sigma>) b) = closedState"
proof -
  show "wrote b (Builder_call M opn b \<sigma>) = wrote b \<sigma>"
    using assms by (cases opn) (simp_all add: closed_defs)
  show "state (heap (Builder_call M opn b \<sigma>) b) = closedState"
    using assms by (cases opn) (simp_all add: closed_defs)
qed

lemma Builder_call_closed_Err:
  assumes "state (heap \<sigma> b) = closedState" "b < nxt \<sigma>" "\<forall>args. opn \<noteq> AddAll args"
  shows "Err (heap (Builder_call M opn b \<sigma>) b) =
           Some (errorString (case opn of Close \<Rightarrow> ''ListBuilder mutated after Close()''
                              | _ \<Rightarrow> ''Builder mutated after Close()''))"
  using assms by (cases opn) (simp_all add: closed_defs)

lemma ListBuilder_call_closed:
  assumes "state (heap \<sigma> b) = closedState" "b < nxt \<sigma>"
  shows "wrote b (ListBuilder_call M opn b \<sigma>) = wrote b \<sigma>"
    and "state (heap (ListBuilder_call M opn b \<sigma>) b) = closedState"
proof -
  show "wrote b (ListBuilder_call M opn b \<sigma>) = wrote b \<sigma>"
    using assms by (cases opn) (simp_all add: closed_defs)
  show "state (heap (ListBuilder_call M opn b \<sigma>) b) = closedState"
    using assms by (cases opn) (simp_all add: closed_defs)
qed

lemma ListBuilder_call_closed_Err:
  assumes "state (heap \<sigma> b) = closedState" "b < nxt \<sigma>" "\<forall>args. opn \<noteq> LAddAll args"
  shows "Err (heap (ListBuilder_call M opn b \<sigma>) b) =
           Some (errorString ''ListWriter mutated after Close()'')"
  using assms by (cases opn) (simp_all add: closed_defs)

lemma AddAll_closed_first_pair:
  assumes "state (heap \<sigma> b) = closedState" "Err (heap \<sigma> b) = None"
  shows "even (length rest) \<Longrightarrow>
         Err (heap (Builder_AddAll M (VString k # v # rest) b \<sigma>) b) =
           Some (errorString ''Builder mutated after Close()'')"
    and "Err (heap (ListBuilder_AddAll M (v # rest) b \<sigma>) b) =
           Some (errorString ''ListWriter mutated after Close()'')"
  using assms
  by (simp_all add: Builder_AddAll_def Builder_Add_def Builder_preadd_closed
      Builder_AddAll_loop_Err ListBuilder_Add_def ListBuilder_preadd_closed
      ListBuilder_AddAll_Err)


lemma apart_other_writer:
  "apart b (Builder_Add M key v a)" "a \<noteq> b \<Longrightarrow> apart b (Builder_Close a)"
  "apart b (ListBuilder_Add M v a)" "a \<noteq> b \<Longrightarrow> apart b (ListBuilder_Close a)"
  by (simp_all add: apart_def quiet_Builder_Add quiet_ListBuilder_Add quiet_Builder_Close_other
      quiet_ListBuilder_Close_other)

section \<open>Closed writers and delimiters\<close>

text \<open>
  Claim C6, as the code has it. On a closed writer every operation other than
  \<open>AddAll\<close> records the mutated-after-close error, and \<open>AddAll\<close> records it when it
  reaches its first \<open>Add\<close> (the writer has no error and, for a \<open>Builder\<close>, the
  arguments start with a string key and are even in number). A closed writer writes
  nothing more and stays closed; in particular a second \<open>Close()\<close> leaves the sink as
  it is. Over the whole lifetime of a writer its method \<open>write\<close> sends the opening
  delimiter exactly once, at construction, and the closing delimiter exactly once if the
  writer is closed and never otherwise.
\<close>

theorem closed_writer_and_delimiters:
  "(state (heap \<sigma> b) = closedState \<and> b < nxt \<sigma> \<longrightarrow>
      ((\<forall>args. opn \<noteq> AddAll args) \<longrightarrow>
         Err (heap (Builder_call M opn b \<sigma>) b) =
           Some (errorString (case opn of Close \<Rightarrow> ''ListBuilder mutated after Close()''
                              | _ \<Rightarrow> ''Builder mutated after Close()''))) \<and>
      (Err (heap \<sigma> b) = None \<and> even (length rest) \<longrightarrow>
         Err (heap (Builder_AddAll M (VString k # v # rest) b \<sigma>) b) =
           Some (errorString ''Builder mutated after Close()'')) \<and>
      wrote b (Builder_call M opn b \<sigma>) = wrote b \<sigma> \<and>
      state (heap (Builder_call M opn b \<sigma>) b) = closedState \<and>
      out (Builder_Close b \<sigma>) = out \<sigma>) \<and>
   (state (heap \<sigma>' c) = closedState \<and> c < nxt \<sigma>' \<longrightarrow>
      ((\<forall>args. lopn \<noteq> LAddAll args) \<longrightarrow>
         Err (heap (ListBuilder_call M lopn c \<sigma>') c) =
           Some (errorString ''ListWriter mutated after Close()'')) \<and>
      (Err (heap \<sigma>' c) = None \<longrightarrow>
         Err (heap (ListBuilder_AddAll M (v' # rest') c \<sigma>') c) =
           Some (errorString ''ListWriter mutated after Close()'')) \<and>
      wrote c (ListBuilder_call M lopn c \<sigma>') = wrote c \<sigma>' \<and>
      state (heap (ListBuilder_call M lopn c \<sigma>') c) = closedState \<and>
      out (ListBuilder_Close c \<sigma>') = out \<sigma>') \<and>
   (Builder_lifetime M d \<tau> \<longrightarrow>
      count_list (wrote d \<tau>) ''{'' = 1 \<and>
      count_list (wrote d \<tau>) ''}'' = (if state (heap \<tau> d) = closedState then 1 else 0)) \<and>
   (ListBuilder_lifetime M d' \<tau>' \<longrightarrow>
      count_list (wrote d' \<tau>') ''['' = 1 \<and>
      count_list (wrote d' \<tau>') '']'' = (if state (heap \<tau>' d') = closedState then 1 else 0))"
proof (intro conjI impI)
  assume "Builder_lifetime M d \<tau>"
  then have "delimiters ''{'' ''}'' d \<tau>" by (rule Builder_lifetime_delimiters)
  then show "count_list (wrote d \<tau>) ''{'' = 1"
    and "count_list (wrote d \<tau>) ''}'' = (if state (heap \<tau> d) = closedState then 1 else 0)"
    by (simp_all add: delimiters_def)
next
  assume "ListBuilder_lifetime M d' \<tau>'"
  then have "delimiters ''['' '']'' d' \<tau>'" by (rule ListBuilder_lifetime_delimiters)
  then show "count_list (wrote d' \<tau>') ''['' = 1"
    and "count_list (wrote d' \<tau>') '']'' = (if state (heap \<tau>' d') = closedState then 1 else 0)"
    by (simp_all add: delimiters_def)
next
  assume a: "state (heap \<sigma> b) = closedState \<and> b < nxt \<sigma>"
  show "wrote b (Builder_call M opn b \<sigma>) = wrote b \<sigma>"
    and "state (heap (Builder_call M opn b \<sigma>) b) = closedState"
    using a by (simp_all add: Builder_call_closed)
  show "out (Builder_Close b \<sigma>) = out \<sigma>"
    using a by (simp add: Builder_Close_def)
  show "Err (heap (Builder_call M opn b \<sigma>) b) =
           Some (errorString (case opn of Close \<Rightarrow> ''ListBuilder mutated after Close()''
                              | _ \<Rightarrow> ''Builder mutated after Close()''))"
    if "\<forall>args. opn \<noteq> AddAll args"
    using a that by (simp add: Builder_call_closed_Err)
  show "Err (heap (Builder_AddAll M (VString k # v # rest) b \<sigma>) b) =
           Some (errorString ''Builder mutated after Close()'')"
    if "Err (heap \<sigma> b) = None \<and> even (length rest)"
    using a that by (intro AddAll_closed_first_pair(1)) simp_all
next
  assume a: "state (heap \<sigma>' c) = closedState \<and> c < nxt \<sigma>'"
  show "wrote c (ListBuilder_call M lopn c \<sigma>') = wrote c \<sigma>'"
    and "state (heap (ListBuilder_call M lopn c \<sigma>') c) = closedState"
    using a by (simp_all add: ListBuilder_call_closed)
  show "out (ListBuilder_Close c \<sigma>') = out \<sigma>'"
    using a by (simp add: ListBuilder_Close_def)
  show "Err (heap (ListBuilder_call M lopn c \<sigma>') c) =
           Some (errorString ''ListWriter mutated after Close()'')"
    if "\<forall>args. lopn \<noteq> LAddAll args"
    using a that by (simp add: ListBuilder_call_closed_Err)
  show "Err (heap (ListBuilder_AddAll M (v' # rest') c \<sigma>') c) =
           Some (errorString ''ListWriter mutated after Close()'')"
    if "Err (heap \<sigma>' c) = None"
    using a that by (intro AddAll_closed_first_pair(2)) simp_all
qed

text \<open>
  Not every operation on a closed writer records the error: \<open>AddAll()\<close> with no
  argument records none, and \<open>Builder.AddAll\<close> with one argument records the
  odd-count error instead.
\<close>

theorem AddAll_on_closed_writer_counterexample:
  "state (heap closed_object 0) = closedState \<and>
   Err (heap (Builder_AddAll Marshal_sample [] 0 closed_object) 0) = None \<and>
   Err (heap (Builder_AddAll Marshal_sample [VInt 1] 0 closed_object) 0) =
     Some (errorString ''AddAll takes an even number of args'') \<and>
   state (heap closed_list 0) = closedState \<and>
   Err (heap (ListBuilder_AddAll Marshal_sample [] 0 closed_list) 0) = None"
  by (simp add: run_defs)

lemma object_life_lifetime: "Builder_lifetime Marshal_sample 0 object_life"
proof -
  have n: "fst (NewBuilder (fresh [])) = 0" "wrote (nxt (fresh [])) (fresh []) = []"
    by (simp_all add: NewBuilder_def wrote_def fresh_def case_prod_beta)
  have "Builder_lifetime Marshal_sample 0 (snd (NewBuilder (fresh [])))"
    using n by (simp add: Builder_lifetime.new)
  then have "Builder_lifetime Marshal_sample 0
      (Builder_call Marshal_sample (AddObject ''foo'') 0 (snd (NewBuilder (fresh []))))"
    by (rule Builder_lifetime.call) simp
  then have "Builder_lifetime Marshal_sample 0
      (Builder_Add Marshal_sample ''bar'' (VInt 7) 1
        (Builder_call Marshal_sample (AddObject ''foo'') 0 (snd (NewBuilder (fresh [])))))"
    by (rule Builder_lifetime.other) (rule apart_other_writer)
  then have "Builder_lifetime Marshal_sample 0
      (Builder_Close 1 (Builder_Add Marshal_sample ''bar'' (VInt 7) 1
        (Builder_call Marshal_sample (AddObject ''foo'') 0 (snd (NewBuilder (fresh []))))))"
    by (rule Builder_lifetime.other) (simp add: apart_other_writer)
  then have "Builder_lifetime Marshal_sample 0
      (Builder_call Marshal_sample Close 0 (Builder_call Marshal_sample Close 0
        (Builder_Close 1 (Builder_Add Marshal_sample ''bar'' (VInt 7) 1
          (Builder_call Marshal_sample (AddObject ''foo'') 0 (snd (NewBuilder (fresh []))))))))"
    by (intro Builder_lifetime.call) simp_all
  then show ?thesis
    by (simp add: object_life_def)
qed

lemma list_life_lifetime: "ListBuilder_lifetime Marshal_sample 0 list_life"
proof -
  have n: "fst (NewListBuilder (fresh [])) = 0" "wrote (nxt (fresh [])) (fresh []) = []"
    by (simp_all add: NewListBuilder_def wrote_def fresh_def case_prod_beta)
  have "ListBuilder_lifetime Marshal_sample 0 (snd (NewListBuilder (fresh [])))"
    using n by (simp add: ListBuilder_lifetime.new)
  then have "ListBuilder_lifetime Marshal_sample 0
      (ListBuilder_call Marshal_sample LClose 0
        (ListBuilder_call Marshal_sample (LAdd (VInt 1)) 0 (snd (NewListBuilder (fresh [])))))"
    by (intro ListBuilder_lifetime.call) simp_all
  then show ?thesis
    by (simp add: list_life_def)
qed

lemma life_states:
  "state (heap object_life 0) = closedState" "state (heap list_life 0) = closedState"
  "out object_life =
     [CHR ''{'', CHR 0x22, CHR ''f'', CHR ''o'', CHR ''o'', CHR 0x22, CHR '':'',
      CHR ''{'', CHR 0x22, CHR ''b'', CHR ''a'', CHR ''r'', CHR 0x22, CHR '':'', CHR ''7'',
      CHR ''}'', CHR ''}'']"
  by (simp_all add: object_life_def list_life_def run_defs digits.simps)


theorem closed_writer_and_delimiters_witness:
  "state (heap closed_object 0) = closedState \<and> 0 < nxt closed_object \<and>
   Err (heap closed_object 0) = None \<and>
   Err (heap (Builder_Add Marshal_sample ''k'' (VInt 1) 0 closed_object) 0) =
     Some (errorString ''Builder mutated after Close()'') \<and>
   Err (heap (Builder_AddAll Marshal_sample [VString ''k'', VInt 1] 0 closed_object) 0) =
     Some (errorString ''Builder mutated after Close()'') \<and>
   out (Builder_Close 0 closed_object) = ''{}'' \<and>
   state (heap closed_list 0) = closedState \<and> 0 < nxt closed_list \<and>
   Err (heap closed_list 0) = None \<and>
   Err (heap (ListBuilder_Close 0 closed_list) 0) =
     Some (errorString ''ListWriter mutated after Close()'') \<and>
   Err (heap (ListBuilder_AddAll Marshal_sample [VInt 1] 0 closed_list) 0) =
     Some (errorString ''ListWriter mutated after Close()'') \<and>
   out (ListBuilder_Close 0 closed_list) = ''[]'' \<and>
   Builder_lifetime Marshal_sample 0 object_life \<and>
   state (heap object_life 0) = closedState \<and>
   count_list (wrote 0 object_life) ''{'' = 1 \<and> count_list (wrote 0 object_life) ''}'' = 1 \<and>
   ListBuilder_lifetime Marshal_sample 0 list_life \<and>
   state (heap list_life 0) = closedState \<and>
   count_list (wrote 0 list_life) ''['' = 1 \<and> count_list (wrote 0 list_life) '']'' = 1"
proof -
  have o: "state (heap closed_object 0) = closedState \<and> 0 < nxt closed_object"
    "Err (heap closed_object 0) = None \<and> even (length ([] :: val list))"
    "out closed_object = ''{}''"
    by (simp_all add: run_defs)
  have l: "state (heap closed_list 0) = closedState \<and> 0 < nxt closed_list"
    "Err (heap closed_list 0) = None" "out closed_list = ''[]''"
    by (simp_all add: run_defs)
  note t = closed_writer_and_delimiters
    [where \<sigma> = closed_object and b = 0 and opn = "Add ''k'' (VInt 1)" and M = Marshal_sample
       and k = "''k''" and v = "VInt 1" and rest = "[]"
       and \<sigma>' = closed_list and c = 0 and lopn = LClose and v' = "VInt 1" and rest' = "[]"
       and d = 0 and \<tau> = object_life and d' = 0 and \<tau>' = list_life]
  show ?thesis
    using t o l object_life_lifetime list_life_lifetime life_states(1,2) by simp
qed

section \<open>What the four child constructors return\<close>

lemma Write_same_sink:
  "plan \<tau> = plan \<sigma> \<Longrightarrow> out \<tau> = out \<sigma> \<Longrightarrow>
   fst (Write d \<tau>) = fst (Write d \<sigma>) \<and> out (snd (Write d \<tau>)) = out (snd (Write d \<sigma>)) \<and>
   plan (snd (Write d \<tau>)) = plan (snd (Write d \<sigma>))"
  by (simp add: Write_def split: list.splits outcome.splits)

lemma blocked_cases:
  assumes "blocked b \<sigma>"
  obtains "state (heap \<sigma> b) = closedState"
  | e where "state (heap \<sigma> b) \<noteq> closedState" "Err (heap \<sigma> b) = Some e"
  | s where "state (heap \<sigma> b) \<noteq> closedState" "Err (heap \<sigma> b) = None" "subB (heap \<sigma> b) = Some s"
      "Err (heap \<sigma> s) \<noteq> None \<or> state (heap \<sigma> s) \<noteq> closedState"
  using assms by (auto simp: blocked_def split: option.splits)

lemma checkSub_child_fails:
  assumes "Err (heap \<sigma> b) = None" "subB (heap \<sigma> b) = Some s"
    "Err (heap \<sigma> s) \<noteq> None \<or> state (heap \<sigma> s) \<noteq> closedState"
  shows "fst (checkSub b \<sigma>) \<noteq> None" and "out (snd (checkSub b \<sigma>)) = out \<sigma>"
    and "plan (snd (checkSub b \<sigma>)) = plan \<sigma>" and "wlog (snd (checkSub b \<sigma>)) = wlog \<sigma>"
    and "nxt (snd (checkSub b \<sigma>)) = nxt \<sigma>"
    and "a \<noteq> b \<Longrightarrow> heap (snd (checkSub b \<sigma>)) a = heap \<sigma> a"
  using assms
  by (auto simp: checkSub_def Let_def err_def closed_def split: option.splits)

lemma preadd_blocked_frame:
  assumes "blocked b \<sigma>"
  shows "out (snd (Builder_preadd M key b \<sigma>)) = out \<sigma> \<and>
         plan (snd (Builder_preadd M key b \<sigma>)) = plan \<sigma> \<and>
         wlog (snd (Builder_preadd M key b \<sigma>)) = wlog \<sigma> \<and>
         nxt (snd (Builder_preadd M key b \<sigma>)) = nxt \<sigma> \<and>
         out (snd (ListBuilder_preadd b \<sigma>)) = out \<sigma> \<and>
         plan (snd (ListBuilder_preadd b \<sigma>)) = plan \<sigma> \<and>
         wlog (snd (ListBuilder_preadd b \<sigma>)) = wlog \<sigma> \<and>
         nxt (snd (ListBuilder_preadd b \<sigma>)) = nxt \<sigma>"
  using assms
proof (cases rule: blocked_cases)
  case 1
  then show ?thesis
    by (simp add: Builder_preadd_closed ListBuilder_preadd_closed)
next
  case (2 e)
  then show ?thesis
    by (simp add: Builder_preadd_Err ListBuilder_preadd_Err)
next
  case (3 s)
  note c = checkSub_child_fails [OF 3(2,3,4)]
  show ?thesis
    using 3(1) c(1-5)
    by (simp add: Builder_preadd_def ListBuilder_preadd_def case_prod_beta Let_def)
qed

lemma opened_child_init:
  assumes "plan \<tau> = plan \<sigma>" "out \<tau> = out \<sigma>" "wlog \<tau> = wlog \<sigma>" "nxt \<tau> = nxt \<sigma>"
    "b < nxt \<sigma>"
  shows "opened_child ''{'' (Some (nxt \<tau>)) \<sigma>
           (set_subB b (Some (nxt \<tau>)) (Builder_init (nxt \<tau>) (snd (alloc \<tau>))))"
    and "opened_child ''['' (Some (nxt \<tau>)) \<sigma>
           (set_subB b (Some (nxt \<tau>)) (ListBuilder_init (nxt \<tau>) (snd (alloc \<tau>))))"
proof -
  have a: "plan (snd (alloc \<tau>)) = plan \<sigma>" "out (snd (alloc \<tau>)) = out \<sigma>"
    "wlog (snd (alloc \<tau>)) = wlog \<sigma>"
    "heap (snd (alloc \<tau>)) (nxt \<sigma>) = \<lparr>state = startState, subB = None, Err = None\<rparr>"
    using assms by (simp_all add: alloc_def)
  show "opened_child ''{'' (Some (nxt \<tau>)) \<sigma>
           (set_subB b (Some (nxt \<tau>)) (Builder_init (nxt \<tau>) (snd (alloc \<tau>))))"
    using assms(4,5) a Write_same_sink [OF a(1,2), of "''{''"]
    by (simp add: opened_child_def Builder_init_def write_def case_prod_beta)
  show "opened_child ''['' (Some (nxt \<tau>)) \<sigma>
           (set_subB b (Some (nxt \<tau>)) (ListBuilder_init (nxt \<tau>) (snd (alloc \<tau>))))"
    using assms(4,5) a Write_same_sink [OF a(1,2), of "''[''"]
    by (simp add: opened_child_def ListBuilder_init_def write_def case_prod_beta)
qed

text \<open>
  Claim C10. When the pre-add protocol of a writer fails (its error is already set, it is
  closed, or its active child has an error or is not closed), \<open>ListBuilder.AddObject\<close>
  returns nil and does nothing beyond the pre-add protocol: no writer is allocated and
  nothing is written. \<open>Builder.AddObject\<close>, \<open>Builder.AddList\<close> and
  \<open>ListBuilder.AddList\<close>, whose pre-add protocol has failed too, return a child all the
  same: the newly allocated writer, opened with its delimiter and recorded as the active
  child of the parent.
\<close>

theorem ListBuilder_AddObject_returns_nil:
  assumes "blocked b \<sigma>" and "b < nxt \<sigma>"
  shows "fst (ListBuilder_preadd b \<sigma>) \<noteq> None \<and>
         ListBuilder_AddObject b \<sigma> = (None, snd (ListBuilder_preadd b \<sigma>)) \<and>
         nxt (snd (ListBuilder_AddObject b \<sigma>)) = nxt \<sigma> \<and>
         wlog (snd (ListBuilder_AddObject b \<sigma>)) = wlog \<sigma> \<and>
         out (snd (ListBuilder_AddObject b \<sigma>)) = out \<sigma> \<and>
         opened_child ''['' (fst (ListBuilder_AddList b \<sigma>)) \<sigma> (snd (ListBuilder_AddList b \<sigma>)) \<and>
         subB (heap (snd (ListBuilder_AddList b \<sigma>)) b) = fst (ListBuilder_AddList b \<sigma>) \<and>
         fst (Builder_preadd M key b \<sigma>) \<noteq> None \<and>
         opened_child ''{'' (fst (Builder_AddObject M key b \<sigma>)) \<sigma>
           (snd (Builder_AddObject M key b \<sigma>)) \<and>
         subB (heap (snd (Builder_AddObject M key b \<sigma>)) b) = fst (Builder_AddObject M key b \<sigma>) \<and>
         opened_child ''['' (fst (Builder_AddList M key b \<sigma>)) \<sigma>
           (snd (Builder_AddList M key b \<sigma>)) \<and>
         subB (heap (snd (Builder_AddList M key b \<sigma>)) b) = fst (Builder_AddList M key b \<sigma>)"
proof -
  note f = preadd_blocked_frame [OF assms(1), of M key]
  let ?p = "snd (Builder_preadd M key b \<sigma>)"
  let ?l = "snd (ListBuilder_preadd b \<sigma>)"
  have fp: "plan ?p = plan \<sigma>" "out ?p = out \<sigma>" "wlog ?p = wlog \<sigma>" "nxt ?p = nxt \<sigma>"
    and fl: "plan ?l = plan \<sigma>" "out ?l = out \<sigma>" "wlog ?l = wlog \<sigma>" "nxt ?l = nxt \<sigma>"
    using f by simp_all
  have l: "fst (ListBuilder_preadd b \<sigma>) \<noteq> None"
    using assms(1) by (rule ListBuilder_preadd_blocked)
  have p: "fst (Builder_preadd M key b \<sigma>) \<noteq> None"
    using assms(1) by (rule Builder_preadd_blocked)
  have n: "ListBuilder_AddObject b \<sigma> = (None, ?l)"
    using l by (simp add: ListBuilder_AddObject_def case_prod_beta)
  have ll: "opened_child ''['' (fst (ListBuilder_AddList b \<sigma>)) \<sigma> (snd (ListBuilder_AddList b \<sigma>))"
    using opened_child_init(2) [OF fl assms(2)]
    by (simp add: ListBuilder_AddList_def case_prod_beta)
  have bo: "opened_child ''{'' (fst (Builder_AddObject M key b \<sigma>)) \<sigma>
           (snd (Builder_AddObject M key b \<sigma>))"
    using opened_child_init(1) [OF fp assms(2)]
    by (simp add: Builder_AddObject_def case_prod_beta)
  have bl: "opened_child ''['' (fst (Builder_AddList M key b \<sigma>)) \<sigma>
           (snd (Builder_AddList M key b \<sigma>))"
    using opened_child_init(2) [OF fp assms(2)]
    by (simp add: Builder_AddList_def case_prod_beta)
  have s: "subB (heap (snd (ListBuilder_AddList b \<sigma>)) b) = fst (ListBuilder_AddList b \<sigma>)"
    "subB (heap (snd (Builder_AddObject M key b \<sigma>)) b) = fst (Builder_AddObject M key b \<sigma>)"
    "subB (heap (snd (Builder_AddList M key b \<sigma>)) b) = fst (Builder_AddList M key b \<sigma>)"
    by (simp_all add: ListBuilder_AddList_def Builder_AddObject_def Builder_AddList_def
        case_prod_beta)
  show ?thesis
    using l p n ll bo bl s fl by simp
qed

theorem ListBuilder_AddObject_returns_nil_witness:
  "blocked 0 closed_list \<and> 0 < nxt closed_list \<and>
   blocked 0 closed_object \<and> 0 < nxt closed_object \<and>
   fst (ListBuilder_AddObject 0 closed_list) = None \<and>
   nxt (snd (ListBuilder_AddObject 0 closed_list)) = 1 \<and>
   out (snd (ListBuilder_AddObject 0 closed_list)) = ''[]'' \<and>
   fst (ListBuilder_AddList 0 closed_list) = Some 1 \<and>
   nxt (snd (ListBuilder_AddList 0 closed_list)) = 2 \<and>
   out (snd (ListBuilder_AddList 0 closed_list)) = ''[]['' \<and>
   subB (heap (snd (ListBuilder_AddList 0 closed_list)) 0) = Some 1 \<and>
   fst (Builder_AddObject Marshal_sample ''k'' 0 closed_object) = Some 1 \<and>
   nxt (snd (Builder_AddObject Marshal_sample ''k'' 0 closed_object)) = 2 \<and>
   out (snd (Builder_AddObject Marshal_sample ''k'' 0 closed_object)) = ''{}{'' \<and>
   wlog (snd (Builder_AddObject Marshal_sample ''k'' 0 closed_object)) =
     [(0, ''{''), (0, ''}''), (1, ''{'')] \<and>
   fst (Builder_AddList Marshal_sample ''k'' 0 closed_object) = Some 1 \<and>
   out (snd (Builder_AddList Marshal_sample ''k'' 0 closed_object)) = ''{}[''"
proof -
  have l: "blocked 0 closed_list" "0 < nxt closed_list"
    by (simp_all add: blocked_def run_defs)
  have b: "blocked 0 closed_object" "0 < nxt closed_object"
    by (simp_all add: blocked_def run_defs)
  have w: "nxt closed_list = 1" "out closed_list = ''[]''" "plan closed_list = []"
    "nxt closed_object = 1" "out closed_object = ''{}''" "plan closed_object = []"
    "wlog closed_object = [(0, ''{''), (0, ''}'')]"
    by (simp_all add: run_defs)
  show ?thesis
    using l b ListBuilder_AddObject_returns_nil [OF l, of Marshal_sample "''k''"]
      ListBuilder_AddObject_returns_nil [OF b, of Marshal_sample "''k''"]
    by (auto simp: opened_child_def w Write_def numeral_2_eq_2)
qed

end
